theory Spec2Isabelle
  imports Complex_Main "HOL-Library.Product_Lexorder" "HOL-Library.Multiset"
begin

section \<open>Strings\<close>

text \<open>
  A Python \<open>str\<close> is modelled by a \<open>string\<close> whose characters stand for the code
  points below 256. The functions of this section are the methods of \<open>str\<close> that
  \<open>api.py\<close> calls, on that range.
\<close>

definition isspace :: "char \<Rightarrow> bool" where
  \<comment> \<open>\<open>str.isspace\<close>: the twelve white-space code points below 256.\<close>
  "isspace c \<longleftrightarrow> c \<in> set [CHR 0x09, CHR 0x0A, CHR 0x0B, CHR 0x0C, CHR 0x0D, CHR 0x1C,
     CHR 0x1D, CHR 0x1E, CHR 0x1F, CHR 0x20, CHR 0x85, CHR 0xA0]"

definition strip :: "string \<Rightarrow> string" where
  \<comment> \<open>\<open>s.strip()\<close>\<close>
  "strip s = rev (dropWhile isspace (rev (dropWhile isspace s)))"

definition replace_all :: "char \<Rightarrow> string \<Rightarrow> string" where
  \<comment> \<open>\<open>s.replace(c, "")\<close> for a one-character \<open>c\<close>\<close>
  "replace_all c s = filter (\<lambda>x. x \<noteq> c) s"

definition lower_char :: "char \<Rightarrow> char" where
  "lower_char c = (let n = (of_char c :: nat) in
     if (65 \<le> n \<and> n \<le> 90) \<or> (192 \<le> n \<and> n \<le> 222 \<and> n \<noteq> 215)
     then char_of (n + 32) else c)"

definition lower :: "string \<Rightarrow> string" where
  \<comment> \<open>\<open>s.lower()\<close>\<close>
  "lower s = map lower_char s"

fun split :: "char \<Rightarrow> string \<Rightarrow> string list" where
  \<comment> \<open>\<open>s.split(sep)\<close> for a one-character \<open>sep\<close>: never the empty list\<close>
  "split sep [] = [[]]"
| "split sep (c # cs) =
     (if c = sep then [] # split sep cs
      else (case split sep cs of [] \<Rightarrow> [[c]] | w # ws \<Rightarrow> (c # w) # ws))"

fun join :: "string \<Rightarrow> string list \<Rightarrow> string" where
  \<comment> \<open>\<open>sep.join(xs)\<close>\<close>
  "join sep [] = []"
| "join sep [x] = x"
| "join sep (x # y # ys) = x @ sep @ join sep (y # ys)"

section \<open>Paths\<close>

text \<open>
  \<open>pathlib.Path\<close> on a POSIX system: a path is its root (\<open>""\<close>, \<open>"/"\<close> or
  \<open>"//"\<close>) and its components. Parsing drops empty components and \<open>"."\<close>; exactly
  two leading slashes are kept as the root \<open>"//"\<close>, any other number is \<open>"/"\<close>.
\<close>

record path =
  root :: string
  parts :: "string list"

definition Path :: "string \<Rightarrow> path" where
  "Path s = (let n = length (takeWhile (\<lambda>c. c = CHR ''/'') s) in
     \<lparr>root = (if n = 0 then [] else if n = 2 then ''//'' else ''/''),
      parts = filter (\<lambda>p. p \<noteq> [] \<and> p \<noteq> ''.'') (split CHR ''/'' s)\<rparr>)"

definition truediv :: "path \<Rightarrow> string \<Rightarrow> path" where
  \<comment> \<open>\<open>p / s\<close>: an absolute right operand replaces the left one\<close>
  "truediv p s = (let q = Path s in
     if root q \<noteq> [] then q else \<lparr>root = root p, parts = parts p @ parts q\<rparr>)"

definition as_posix :: "path \<Rightarrow> string" where
  \<comment> \<open>\<open>p.as_posix()\<close>, which is \<open>str(p)\<close> on POSIX: the empty path prints as \<open>"."\<close>\<close>
  "as_posix p = (if root p = [] \<and> parts p = [] then ''.''
     else root p @ join ''/'' (parts p))"

definition is_absolute :: "path \<Rightarrow> bool" where
  "is_absolute p \<longleftrightarrow> root p \<noteq> []"

definition relative_to :: "path \<Rightarrow> path \<Rightarrow> path option" where
  \<comment> \<open>\<open>p.relative_to(other)\<close>; \<open>None\<close> is the \<open>ValueError\<close>\<close>
  "relative_to p other =
     (if root p = root other \<and> take (length (parts other)) (parts p) = parts other
      then Some \<lparr>root = [], parts = drop (length (parts other)) (parts p)\<rparr>
      else None)"

section \<open>Configuration\<close>

definition PICTURES_DEST_ROOT :: path where
  "PICTURES_DEST_ROOT = Path ''/srv/homepass''"

definition PICTURES_ROOT :: path where
  "PICTURES_ROOT = truediv PICTURES_DEST_ROOT ''pictures''"

definition SERVER_CSV :: path where
  "SERVER_CSV = truediv PICTURES_DEST_ROOT ''homes.csv''"

definition PICTURES_URL_BASE :: string where
  "PICTURES_URL_BASE = ''http://jumbo.galagen.net:2205/pictures''"

section \<open>Image URL resolver\<close>

definition resolve_image_url :: "string option \<Rightarrow> string option" where
  \<comment> \<open>\<open>_resolve_image_url\<close>\<close>
  "resolve_image_url value =
     (case value of
        None \<Rightarrow> None
      | Some v \<Rightarrow>
          if v = [] then None
          else
            let candidate = Path v;
                candidate = (if is_absolute candidate
                             then (case relative_to candidate PICTURES_ROOT of
                                     Some r \<Rightarrow> r
                                   | None \<Rightarrow> candidate)
                             else candidate);
                parts = filter (\<lambda>part. part \<noteq> []) (split CHR ''/'' (as_posix candidate));
                parts = (case parts of
                           [] \<Rightarrow> parts
                         | p # ps \<Rightarrow> if lower p = ''pictures'' then ps else parts)
            in if parts = [] then None
               else Some (PICTURES_URL_BASE @ ''/'' @ join ''/'' parts))"


section \<open>Numbers\<close>

datatype exn =
    ValueError
  | TypeError
  | OverflowError
  | InvalidOperation
  | FileNotFoundError string
  | HTTPException nat string

definition isdigit :: "char \<Rightarrow> bool" where
  "isdigit c \<longleftrightarrow> 48 \<le> (of_char c :: nat) \<and> (of_char c :: nat) \<le> 57"

definition digits_val :: "string \<Rightarrow> nat" where
  "digits_val ds = foldl (\<lambda>a c. 10 * a + ((of_char c :: nat) - 48)) 0 ds"

definition parse_sign :: "string \<Rightarrow> bool \<times> string" where
  \<comment> \<open>an optional \<open>+\<close> or \<open>-\<close>; \<open>True\<close> is negative\<close>
  "parse_sign s =
     (case s of
        [] \<Rightarrow> (False, [])
      | c # cs \<Rightarrow> if c = CHR ''-'' then (True, cs)
                 else if c = CHR ''+'' then (False, cs) else (False, s))"

definition parse_number :: "string \<Rightarrow> (nat \<times> int) option" where
  \<comment> \<open>The unsigned decimal numeral that \<open>float\<close> and \<open>Decimal\<close> both read: digits with
      an optional point (a digit on one side of it at least) and an optional exponent.
      The result is the coefficient and the power of ten.\<close>
  "parse_number s =
     (let ip = takeWhile isdigit s;
          r1 = dropWhile isdigit s;
          (fp, r2) = (case r1 of
                        [] \<Rightarrow> ([], r1)
                      | c # t \<Rightarrow> if c = CHR ''.'' then (takeWhile isdigit t, dropWhile isdigit t)
                                else ([], r1))
      in if ip = [] \<and> fp = [] then None
         else (case r2 of
                 [] \<Rightarrow> Some (digits_val (ip @ fp), - int (length fp))
               | c # t \<Rightarrow>
                   if c = CHR ''e'' \<or> c = CHR ''E'' then
                     (let (neg, ds) = parse_sign t
                      in if ds \<noteq> [] \<and> list_all isdigit ds
                         then Some (digits_val (ip @ fp),
                                    (if neg then - int (digits_val ds) else int (digits_val ds))
                                      - int (length fp))
                         else None)
                   else None))"

definition pow2 :: "int \<Rightarrow> rat" where
  "pow2 k = (if 0 \<le> k then 2 ^ nat k else 1 / 2 ^ nat (- k))"

definition pow10 :: "int \<Rightarrow> rat" where
  "pow10 k = (if 0 \<le> k then 10 ^ nat k else 1 / 10 ^ nat (- k))"

subsection \<open>float\<close>

text \<open>
  A Python \<open>float\<close> is an IEEE 754 binary64 number: a finite one is modelled by the
  rational it denotes. \<open>to_binary64\<close> rounds a rational to the nearest such number, ties
  to the even significand, as the conversion from a decimal string does.
\<close>

datatype pyfloat = FFinite rat | FInf bool | FNaN

fun ilog2 :: "nat \<Rightarrow> nat" where
  "ilog2 n = (if n < 2 then 0 else Suc (ilog2 (n div 2)))"

declare ilog2.simps [simp del]

definition floor_log2 :: "rat \<Rightarrow> int" where
  \<comment> \<open>for \<open>0 < q\<close>, the \<open>k\<close> with \<open>2 ^ k \<le> q < 2 ^ (k + 1)\<close>\<close>
  "floor_log2 q =
     (let (n, d) = quotient_of q;
          k = int (ilog2 (nat n)) - int (ilog2 (nat d))
      in if pow2 k \<le> q then k else k - 1)"

definition round_half_even :: "rat \<Rightarrow> int" where
  "round_half_even q =
     (let f = \<lfloor>q\<rfloor>; r = q - of_int f
      in if r < 1 / 2 then f else if 1 / 2 < r then f + 1
         else if even f then f else f + 1)"

definition to_binary64 :: "rat \<Rightarrow> pyfloat" where
  "to_binary64 q =
     (if q = 0 then FFinite 0
      else
        let a = \<bar>q\<bar>;
            e = max (floor_log2 a - 52) (- 1074);
            m = round_half_even (a / pow2 e);
            v = of_int m * pow2 e
        in if pow2 1024 \<le> v then FInf (q < 0)
           else FFinite (if q < 0 then - v else v))"

fun underscores_ok :: "char \<Rightarrow> string \<Rightarrow> bool" where
  \<comment> \<open>an underscore stands between two digits; the first argument is the previous character\<close>
  "underscores_ok prev [] \<longleftrightarrow> prev \<noteq> CHR ''_''"
| "underscores_ok prev (c # cs) \<longleftrightarrow>
     (if c = CHR ''_'' then isdigit prev else (prev = CHR ''_'' \<longrightarrow> isdigit c))
     \<and> underscores_ok c cs"

definition py_float :: "string \<Rightarrow> exn + pyfloat" where
  \<comment> \<open>\<open>float(s)\<close>\<close>
  "py_float s =
     (let t = strip s
      in if \<not> underscores_ok (CHR 0x00) t then Inl ValueError
         else
           let (neg, u) = parse_sign (replace_all CHR ''_'' t);
               w = lower u
           in if w = ''inf'' \<or> w = ''infinity'' then Inr (FInf neg)
              else if w = ''nan'' then Inr FNaN
              else (case parse_number u of
                      None \<Rightarrow> Inl ValueError
                    | Some (c, e) \<Rightarrow>
                        Inr (to_binary64 ((if neg then - 1 else 1) * of_nat c * pow10 e))))"

definition py_int :: "pyfloat \<Rightarrow> exn + int" where
  \<comment> \<open>\<open>int(x)\<close> of a float: truncation towards zero\<close>
  "py_int x =
     (case x of
        FFinite q \<Rightarrow> Inr (if 0 \<le> q then \<lfloor>q\<rfloor> else \<lceil>q\<rceil>)
      | FInf _ \<Rightarrow> Inl OverflowError
      | FNaN \<Rightarrow> Inl ValueError)"

subsection \<open>Decimal\<close>

text \<open>
  \<open>decimal.Decimal\<close>: a finite value is a sign, a coefficient and a power of ten, kept
  as written (\<open>Decimal("1234.50")\<close> has coefficient \<open>123450\<close> and exponent \<open>-2\<close>). The
  constructor reads a string without rounding. CPython's implementation (on a 64-bit
  build) refuses, with \<open>InvalidOperation\<close>, a number that its widest context cannot
  hold exactly: \<open>MAX_PREC\<close>, \<open>MAX_EMAX\<close> and \<open>MIN_ETINY\<close> are the constants of the
  module, on the number of digits of the coefficient, on the exponent of its leading
  digit, and on the exponent itself.
\<close>

datatype decimal =
    Dec bool nat int
  | DecInf bool
  | DecNaN bool bool nat

definition MAX_PREC :: int where
  "MAX_PREC = 999999999999999999"

definition MAX_EMAX :: int where
  "MAX_EMAX = 999999999999999999"

definition MIN_ETINY :: int where
  "MIN_ETINY = - 1999999999999999997"

fun ndigits :: "nat \<Rightarrow> nat" where
  \<comment> \<open>the number of decimal digits of a coefficient; zero has one\<close>
  "ndigits n = (if n < 10 then 1 else Suc (ndigits (n div 10)))"

declare ndigits.simps [simp del]

definition dec_in_range :: "nat \<Rightarrow> int \<Rightarrow> bool" where
  "dec_in_range c e \<longleftrightarrow>
     int (ndigits c) \<le> MAX_PREC \<and> MIN_ETINY \<le> e \<and> e + int (ndigits c) - 1 \<le> MAX_EMAX"

definition Decimal :: "string \<Rightarrow> exn + decimal" where
  \<comment> \<open>\<open>Decimal(s)\<close>\<close>
  "Decimal s =
     (let (neg, u) = parse_sign (replace_all CHR ''_'' (strip s));
          w = lower u
      in if w = ''inf'' \<or> w = ''infinity'' then Inr (DecInf neg)
         else if take 3 w = ''nan'' \<and> list_all isdigit (drop 3 w)
           then (if int (ndigits (digits_val (drop 3 w))) \<le> MAX_PREC
                 then Inr (DecNaN neg False (digits_val (drop 3 w)))
                 else Inl InvalidOperation)
         else if take 4 w = ''snan'' \<and> list_all isdigit (drop 4 w)
           then (if int (ndigits (digits_val (drop 4 w))) \<le> MAX_PREC
                 then Inr (DecNaN neg True (digits_val (drop 4 w)))
                 else Inl InvalidOperation)
         else (case parse_number u of
                 None \<Rightarrow> Inl InvalidOperation
               | Some (c, e) \<Rightarrow>
                   if dec_in_range c e then Inr (Dec neg c e) else Inl InvalidOperation))"

fun dec_value :: "decimal \<Rightarrow> rat option" where
  \<comment> \<open>the number a finite decimal denotes\<close>
  "dec_value (Dec neg c e) = Some ((if neg then - 1 else 1) * of_nat c * pow10 e)"
| "dec_value (DecInf _) = None"
| "dec_value (DecNaN _ _ _) = None"

section \<open>Storage\<close>

text \<open>
  The three tables, a row of each as a record whose fields are the columns (prefixed
  by the initial of the table). A table is the list of its rows in insertion order.
  A cursor sees the rows its own transaction has inserted, so the database value that
  the import threads through its loop is what its cursor reads. The constraints of the
  schema (column types and widths, keys) are not part of \<open>api.py\<close> and are not
  modelled: an \<open>INSERT\<close> always succeeds, and text compares as it is stored.
\<close>

record user =
  u_id :: int
  u_wallet :: string
  u_name :: string
  u_surname :: string

record apartament =
  a_id :: int
  a_user_id :: int
  a_name :: string
  a_adress :: string
  a_area :: int
  a_cost :: decimal
  a_tokens :: int
  a_type :: string

record picture =
  p_id :: int
  p_apartment_id :: int
  p_file_path :: "string option"
  p_is_primary :: bool

text \<open>
  Modelled from the spec: the schema is not part of \<open>api.py\<close>. A listing's identifier
  is ``assigned by storage'': \<open>apartaments_seq\<close> is the next value of its sequence.
\<close>

record database =
  users :: "user list"
  apartaments :: "apartament list"
  pictures :: "picture list"
  apartaments_seq :: int

section \<open>Row enricher\<close>

text \<open>
  The query of \<open>_get_image_paths\<close> is a filter followed by a sort on the pair
  (not primary, identifier), compared lexicographically: \<open>is_primary DESC\<close> puts the
  primary pictures first. \<open>is_primary\<close> is taken to be a boolean that is never
  \<open>NULL\<close>, and \<open>id\<close> to be the key of the table, so that the order is determined.
\<close>

definition get_image_paths :: "database \<Rightarrow> int \<Rightarrow> string option list" where
  \<comment> \<open>\<open>_get_image_paths\<close>: \<open>WHERE apartment_id = %s ORDER BY is_primary DESC, id\<close>\<close>
  "get_image_paths db apartment_id =
     map p_file_path
       (sort_key (\<lambda>p. (\<not> p_is_primary p, p_id p))
          (filter (\<lambda>p. p_apartment_id p = apartment_id) (pictures db)))"

definition pictures_order :: "picture \<Rightarrow> picture \<Rightarrow> bool" where
  \<comment> \<open>the order of the spec, ``primary-first, then by identifier ascending'': when
      \<open>p\<close> may stand before \<open>q\<close>\<close>
  "pictures_order p q \<longleftrightarrow>
     (p_is_primary p \<and> \<not> p_is_primary q) \<or> (p_is_primary p = p_is_primary q \<and> p_id p \<le> p_id q)"

record house_row =
  row_id :: int
  images :: "string list"

definition attach_images :: "database \<Rightarrow> 'a house_row_scheme list \<Rightarrow> 'a house_row_scheme list" where
  \<comment> \<open>\<open>_attach_images\<close>: the rows are updated in place, here returned\<close>
  "attach_images db rows =
     map (\<lambda>row.
            let raw_paths = get_image_paths db (row_id row)
            in row\<lparr>images := [p. Some p \<leftarrow> map resolve_image_url raw_paths, p \<noteq> []]\<rparr>)
         rows"

section \<open>CSV import\<close>

text \<open>
  \<open>csv.DictReader\<close> yields one dictionary per data line, from column name to field
  (\<open>None\<close> where the line is short). A file is modelled by the rows read from it, and
  the file system by the files found at each path: a path that exists is a readable
  UTF-8 CSV file.
\<close>

type_synonym csv_row = "string \<rightharpoonup> string"

type_synonym filesystem = "string \<rightharpoonup> csv_row list"

definition exists_path :: "filesystem \<Rightarrow> path \<Rightarrow> bool" where
  \<comment> \<open>\<open>p.exists()\<close>\<close>
  "exists_path fs p \<longleftrightarrow> fs (as_posix p) \<noteq> None"

definition or_else :: "string option \<Rightarrow> string option \<Rightarrow> string option" where
  \<comment> \<open>\<open>a or b\<close>: \<open>None\<close> and the empty string are false\<close>
  "or_else a b = (case a of None \<Rightarrow> b | Some s \<Rightarrow> if s = [] then b else a)"

definition or_str :: "string option \<Rightarrow> string \<Rightarrow> string" where
  \<comment> \<open>\<open>a or d\<close> with a string literal \<open>d\<close> on the right\<close>
  "or_str a d = (case a of None \<Rightarrow> d | Some s \<Rightarrow> if s = [] then d else s)"

definition import_row :: "int \<Rightarrow> csv_row \<Rightarrow> database \<Rightarrow> exn + database option" where
  \<comment> \<open>The body of the loop of \<open>insert_apartments_from_csv\<close>: \<open>Inr None\<close> is
      \<open>continue\<close>, \<open>Inr (Some db')\<close> is the row inserted, \<open>Inl e\<close> is an exception
      that no \<open>except\<close> clause of the body catches.\<close>
  "import_row user_id row db =
     (let name = strip (or_str (or_else (or_else (row ''title'') (row ''name'')) (row ''url'')) []);
          address = strip (or_str (or_else (row ''address'') (row ''adress'')) [])
      in if name = [] \<or> address = [] then Inr None
         else
           let area_raw = strip (replace_all CHR '','' (or_str (or_else (row ''area_m2'') (row ''area'')) []))
           in (case (case py_float area_raw of Inl e \<Rightarrow> Inl e | Inr x \<Rightarrow> py_int x) of
                 Inl e \<Rightarrow> if e = ValueError \<or> e = TypeError then Inr None else Inl e
               | Inr area_val \<Rightarrow>
                  (let price_raw = strip (replace_all CHR '','' (or_str (or_else (row ''price_usd'') (row ''cost'')) []))
                   in (case Decimal price_raw of
                         Inl e \<Rightarrow> if e = InvalidOperation \<or> e = TypeError then Inr None else Inl e
                       | Inr cost_val \<Rightarrow>
                          (let apt_type = strip (or_str (row ''type'') ''Flat'')
                           in (case find (\<lambda>a. a_name a = name \<and> a_adress a = address \<and> a_user_id a = user_id)
                                     (apartaments db) of
                                 Some _ \<Rightarrow> Inr None
                               | None \<Rightarrow>
                                  Inr (Some (db\<lparr>apartaments := apartaments db @
                                    [\<lparr>a_id = apartaments_seq db, a_user_id = user_id, a_name = name,
                                      a_adress = address, a_area = area_val, a_cost = cost_val,
                                      a_tokens = 0, a_type = apt_type\<rparr>],
                                    apartaments_seq := apartaments_seq db + 1\<rparr>))))))))"

fun import_rows :: "int \<Rightarrow> csv_row list \<Rightarrow> database \<Rightarrow> nat \<Rightarrow> exn + (nat \<times> database)" where
  \<comment> \<open>\<open>for row in reader\<close>, with the counter \<open>inserted\<close>\<close>
  "import_rows user_id [] db inserted = Inr (inserted, db)"
| "import_rows user_id (row # rest) db inserted =
     (case import_row user_id row db of
        Inl e \<Rightarrow> Inl e
      | Inr None \<Rightarrow> import_rows user_id rest db inserted
      | Inr (Some db') \<Rightarrow> import_rows user_id rest db' (inserted + 1))"

definition insert_apartments_from_csv ::
    "filesystem \<Rightarrow> database \<Rightarrow> path \<Rightarrow> int \<Rightarrow> exn + (nat \<times> database)" where
  "insert_apartments_from_csv fs cur csv_path user_id =
     (case fs (as_posix csv_path) of
        None \<Rightarrow> Inl (FileNotFoundError (''CSV file not found: '' @ as_posix csv_path))
      | Some reader \<Rightarrow> import_rows user_id reader cur 0)"

subsection \<open>The field mapping in the words of the specification\<close>

fun first_present :: "string option list \<Rightarrow> string" where
  \<comment> \<open>``\<open>a\<close>, else \<open>b\<close>, else \<open>c\<close>'': the first column that is present and not empty,
      the empty string when there is none\<close>
  "first_present [] = []"
| "first_present (None # cols) = first_present cols"
| "first_present (Some s # cols) = (if s = [] then first_present cols else s)"

definition spec_name :: "csv_row \<Rightarrow> string" where
  "spec_name row = strip (first_present [row ''title'', row ''name'', row ''url''])"

definition spec_address :: "csv_row \<Rightarrow> string" where
  "spec_address row = strip (first_present [row ''address'', row ''adress''])"

definition spec_area :: "csv_row \<Rightarrow> exn + int" where
  \<comment> \<open>commas removed, trimmed, read as a float, truncated\<close>
  "spec_area row =
     (case py_float (strip (replace_all CHR '','' (first_present [row ''area_m2'', row ''area'']))) of
        Inl e \<Rightarrow> Inl e
      | Inr x \<Rightarrow> py_int x)"

definition spec_cost :: "csv_row \<Rightarrow> exn + decimal" where
  \<comment> \<open>commas removed, trimmed, read as a decimal\<close>
  "spec_cost row =
     Decimal (strip (replace_all CHR '','' (first_present [row ''price_usd'', row ''cost''])))"

definition spec_type :: "csv_row \<Rightarrow> string" where
  "spec_type row = strip (if first_present [row ''type''] = [] then ''Flat''
                          else first_present [row ''type''])"

definition dedup_key :: "apartament \<Rightarrow> string \<times> string \<times> int" where
  "dedup_key a = (a_name a, a_adress a, a_user_id a)"

definition new_listing :: "database \<Rightarrow> int \<Rightarrow> csv_row \<Rightarrow> int \<Rightarrow> decimal \<Rightarrow> apartament" where
  \<comment> \<open>the listing a valid row of the owner gives, with the next identifier\<close>
  "new_listing db user_id row area cost =
     \<lparr>a_id = apartaments_seq db, a_user_id = user_id, a_name = spec_name row,
      a_adress = spec_address row, a_area = area, a_cost = cost, a_tokens = 0,
      a_type = spec_type row\<rparr>"

section \<open>Endpoints\<close>

definition ensure_user_exists :: "database \<Rightarrow> int \<Rightarrow> bool" where
  "ensure_user_exists db user_id \<longleftrightarrow> find (\<lambda>u. u_id u = user_id) (users db) \<noteq> None"

definition get_user :: "database \<Rightarrow> int \<Rightarrow> exn + user" where
  "get_user db user_id =
     (case find (\<lambda>u. u_id u = user_id) (users db) of
        None \<Rightarrow> Inl (HTTPException 404 ''User not found'')
      | Some row \<Rightarrow> Inr row)"

record import_result =
  source_csv :: string
  inserted_apartments :: nat

definition import_csv ::
    "filesystem \<Rightarrow> database \<Rightarrow> int \<Rightarrow> string option \<Rightarrow> exn + (import_result \<times> database)" where
  \<comment> \<open>The result carries the database after \<open>db.commit()\<close>. An exception leaves the
      transaction uncommitted: the database stays the one passed in.\<close>
  "import_csv fs db user_id csv_path =
     (if \<not> ensure_user_exists db user_id then Inl (HTTPException 404 ''User not found'')
      else
        let path = (case csv_path of
                      None \<Rightarrow> SERVER_CSV
                    | Some s \<Rightarrow> if s = [] then SERVER_CSV else Path s)
        in if \<not> exists_path fs path then Inl (HTTPException 404 (as_posix path @ '' not found''))
           else (case insert_apartments_from_csv fs db path user_id of
                   Inl e \<Rightarrow> Inl e
                 | Inr (inserted, db') \<Rightarrow>
                     Inr (\<lparr>source_csv = as_posix path, inserted_apartments = inserted\<rparr>, db')))"

section \<open>Example rows and stores\<close>

definition sample_db :: database where
  "sample_db = \<lparr>users = [\<lparr>u_id = 1, u_wallet = ''0xabc'', u_name = ''Ann'', u_surname = ''Lee''\<rparr>],
     apartaments = [], pictures = [], apartaments_seq = 1\<rparr>"

definition row_valid :: csv_row where
  "row_valid = [''title'' \<mapsto> ''Loft'', ''address'' \<mapsto> ''1 Main St'', ''area_m2'' \<mapsto> ''45.5'',
     ''price_usd'' \<mapsto> ''1,234.50'']"

definition row_area_inf :: csv_row where
  "row_area_inf = [''title'' \<mapsto> ''Barn'', ''address'' \<mapsto> ''2 Main St'', ''area'' \<mapsto> ''inf'',
     ''cost'' \<mapsto> ''10'']"

definition row_area_huge :: csv_row where
  "row_area_huge = [''title'' \<mapsto> ''Barn'', ''address'' \<mapsto> ''2 Main St'', ''area'' \<mapsto> ''1e999'',
     ''cost'' \<mapsto> ''10'']"

definition row_area_text :: csv_row where
  "row_area_text = [''title'' \<mapsto> ''Shed'', ''address'' \<mapsto> ''3 Main St'', ''area'' \<mapsto> ''large'',
     ''cost'' \<mapsto> ''10'']"

definition row_area_negative :: csv_row where
  "row_area_negative = [''title'' \<mapsto> ''Cellar'', ''address'' \<mapsto> ''4 Main St'', ''area'' \<mapsto> ''-5'',
     ''cost'' \<mapsto> ''10'']"

definition row_cost_text :: csv_row where
  "row_cost_text = [''title'' \<mapsto> ''Attic'', ''address'' \<mapsto> ''5 Main St'', ''area'' \<mapsto> ''30'',
     ''price_usd'' \<mapsto> ''call us'']"

definition row_blank_title :: csv_row where
  "row_blank_title = [''title'' \<mapsto> ''  '', ''name'' \<mapsto> ''Annex'', ''address'' \<mapsto> ''6 Main St'',
     ''area'' \<mapsto> ''30'', ''cost'' \<mapsto> ''10'']"

definition db_loft :: database where
  "db_loft = sample_db\<lparr>apartaments :=
       [\<lparr>a_id = 1, a_user_id = 1, a_name = ''Loft'', a_adress = ''1 Main St'', a_area = 45,
         a_cost = Dec False 123450 (- 2), a_tokens = 0, a_type = ''Flat''\<rparr>],
       apartaments_seq := 2\<rparr>"

definition db_cellar :: database where
  "db_cellar = sample_db\<lparr>apartaments :=
       [\<lparr>a_id = 1, a_user_id = 1, a_name = ''Cellar'', a_adress = ''4 Main St'', a_area = - 5,
         a_cost = Dec False 10 0, a_tokens = 0, a_type = ''Flat''\<rparr>],
       apartaments_seq := 2\<rparr>"

definition row_no_cost :: csv_row where
  "row_no_cost = [''title'' \<mapsto> ''Hut'', ''address'' \<mapsto> ''7 Main St'', ''area'' \<mapsto> ''30'',
     ''cost'' \<mapsto> []]"

definition row_inf_no_cost :: csv_row where
  "row_inf_no_cost = [''title'' \<mapsto> ''Barn'', ''address'' \<mapsto> ''2 Main St'', ''area'' \<mapsto> ''inf'']"

definition row_fallback :: csv_row where
  "row_fallback = [''name'' \<mapsto> ''Annex'', ''adress'' \<mapsto> ''6 Main St'', ''area'' \<mapsto> ''30'',
     ''cost'' \<mapsto> ''10'']"

definition row_url_only :: csv_row where
  "row_url_only = [''title'' \<mapsto> [], ''url'' \<mapsto> ''http://x/9'', ''address'' \<mapsto> ''9 Main St'',
     ''area'' \<mapsto> ''30'', ''cost'' \<mapsto> ''10'']"

definition db_annex :: database where
  "db_annex = sample_db\<lparr>apartaments :=
       [\<lparr>a_id = 1, a_user_id = 1, a_name = ''Annex'', a_adress = ''6 Main St'', a_area = 30,
         a_cost = Dec False 10 0, a_tokens = 0, a_type = ''Flat''\<rparr>],
       apartaments_seq := 2\<rparr>"

definition sample_fs :: "csv_row list \<Rightarrow> filesystem" where
  \<comment> \<open>a file system whose only file is the default CSV, holding the given rows\<close>
  "sample_fs rows = [''/srv/homepass/homes.csv'' \<mapsto> rows]"

definition sample_pictures :: "picture list" where
  "sample_pictures =
     [\<lparr>p_id = 1, p_apartment_id = 7, p_file_path = Some ''pictures/7/b.jpg'', p_is_primary = False\<rparr>,
      \<lparr>p_id = 2, p_apartment_id = 8, p_file_path = Some ''pictures/8/a.jpg'', p_is_primary = True\<rparr>,
      \<lparr>p_id = 3, p_apartment_id = 7, p_file_path = Some ''pictures'', p_is_primary = False\<rparr>,
      \<lparr>p_id = 4, p_apartment_id = 7, p_file_path = Some ''/srv/homepass/pictures/7/a.jpg'',
        p_is_primary = True\<rparr>,
      \<lparr>p_id = 5, p_apartment_id = 7, p_file_path = None, p_is_primary = False\<rparr>]"

section \<open>Properties of the number model\<close>

lemma pow2_powi: "pow2 k = 2 powi k"
  by (simp add: pow2_def power_int_def inverse_eq_divide power_one_over)

lemma pow2_pos: "0 < pow2 k"
  by (simp add: pow2_powi)

lemma pow2_add: "pow2 (a + b) = pow2 a * pow2 b"
  by (simp add: pow2_powi power_int_add)

lemma pow2_less_iff: "pow2 a < pow2 b \<longleftrightarrow> a < b"
proof
  assume "pow2 a < pow2 b"
  show "a < b"
  proof (rule ccontr)
    assume "\<not> a < b"
    then have "b \<le> a" by simp
    then have "(2::rat) powi b \<le> 2 powi a" by (rule power_int_increasing) simp
    with \<open>pow2 a < pow2 b\<close> show False by (simp add: pow2_powi)
  qed
next
  assume "a < b"
  then have "(2::rat) powi a < 2 powi b" by (rule power_int_strict_increasing) simp
  then show "pow2 a < pow2 b" by (simp add: pow2_powi)
qed

lemma pow2_le_iff: "pow2 a \<le> pow2 b \<longleftrightarrow> a \<le> b"
  using pow2_less_iff [of b a] by (simp add: not_less [symmetric])



lemma pow2_nat: "pow2 (int n) = 2 ^ n"
  by (simp add: pow2_def)

lemma pow2_neg_nat: "pow2 (- int n) = 1 / 2 ^ n"
  by (auto simp: pow2_def)

lemma ilog2_bounds: "0 < n \<Longrightarrow> 2 ^ ilog2 n \<le> n \<and> n < 2 ^ (ilog2 n + 1)"
proof (induction n rule: ilog2.induct)
  case (1 n)
  show ?case
  proof (cases "n < 2")
    case True
    with "1.prems" have "n = 1" by simp
    then show ?thesis by (simp add: ilog2.simps)
  next
    case False
    then have pos: "0 < n div 2" by simp
    from "1.IH" [OF False pos]
    have lo: "2 ^ ilog2 (n div 2) \<le> n div 2" and hi: "n div 2 < 2 ^ (ilog2 (n div 2) + 1)"
      by simp_all
    have eq: "ilog2 n = Suc (ilog2 (n div 2))"
      using False by (subst ilog2.simps) simp
    from lo have "2 * 2 ^ ilog2 (n div 2) \<le> n" by linarith
    moreover from hi have "n < 2 * 2 ^ (ilog2 (n div 2) + 1)" by linarith
    ultimately show ?thesis by (simp add: eq)
  qed
qed

lemma floor_log2_bounds:
  assumes "0 < q"
  shows "pow2 (floor_log2 q) \<le> q \<and> q < pow2 (floor_log2 q + 1)"
proof -
  obtain n d where nd: "quotient_of q = (n, d)" by (cases "quotient_of q")
  then have q: "q = of_int n / of_int d" and d: "0 < d"
    by (simp_all add: quotient_of_div quotient_of_denom_pos)
  with assms have n: "0 < n" by (simp add: zero_less_divide_iff)
  define a where "a = ilog2 (nat n)"
  define b where "b = ilog2 (nat d)"
  define k where "k = int a - int b"
  from ilog2_bounds [of "nat n"] n have na: "2 ^ a \<le> nat n" "nat n < 2 ^ (a + 1)"
    by (simp_all add: a_def)
  from ilog2_bounds [of "nat d"] d have db: "2 ^ b \<le> nat d" "nat d < 2 ^ (b + 1)"
    by (simp_all add: b_def)
  have n1: "(2::rat) ^ a \<le> of_int n" "(of_int n :: rat) < 2 ^ (a + 1)"
  proof -
    from na(1) have "int (2 ^ a) \<le> n" using n by linarith
    then have "(of_int (int (2 ^ a)) :: rat) \<le> of_int n" by (simp only: of_int_le_iff)
    then show "(2::rat) ^ a \<le> of_int n" by simp
    from na(2) have "n < int (2 ^ (a + 1))" using n by linarith
    then have "(of_int n :: rat) < of_int (int (2 ^ (a + 1)))" by (simp only: of_int_less_iff)
    then show "(of_int n :: rat) < 2 ^ (a + 1)" by simp
  qed
  have d1: "(2::rat) ^ b \<le> of_int d" "(of_int d :: rat) < 2 ^ (b + 1)"
  proof -
    from db(1) have "int (2 ^ b) \<le> d" using d by linarith
    then have "(of_int (int (2 ^ b)) :: rat) \<le> of_int d" by (simp only: of_int_le_iff)
    then show "(2::rat) ^ b \<le> of_int d" by simp
    from db(2) have "d < int (2 ^ (b + 1))" using d by linarith
    then have "(of_int d :: rat) < of_int (int (2 ^ (b + 1)))" by (simp only: of_int_less_iff)
    then show "(of_int d :: rat) < 2 ^ (b + 1)" by simp
  qed
  have dpos: "(0::rat) < of_int d" using d by simp
  have fl: "floor_log2 q = (if pow2 k \<le> q then k else k - 1)"
    by (simp add: floor_log2_def nd a_def b_def k_def Let_def)
  have k1: "pow2 (k - 1) = 2 ^ a / 2 ^ (b + 1)"
    by (simp add: pow2_powi k_def power_int_diff power_int_add)
  have k2: "pow2 (k + 1) = 2 ^ (a + 1) / 2 ^ b"
    by (simp add: pow2_powi k_def power_int_diff power_int_add)
  have lo: "pow2 (k - 1) \<le> q"
  proof -
    have "(2::rat) ^ a / 2 ^ (b + 1) \<le> of_int n / of_int d"
    proof (rule frac_le)
      show "(0::rat) \<le> of_int n" using n by simp
      show "(2::rat) ^ a \<le> of_int n" by (rule n1(1))
      show "(0::rat) < of_int d" by (rule dpos)
      show "(of_int d :: rat) \<le> 2 ^ (b + 1)" using d1(2) by simp
    qed
    then show ?thesis by (simp add: k1 q)
  qed
  have hi: "q < pow2 (k + 1)"
  proof -
    have "of_int n / of_int d < (2::rat) ^ (a + 1) / 2 ^ b"
    proof (rule frac_less)
      show "(0::rat) \<le> of_int n" using n by simp
      show "(of_int n :: rat) < 2 ^ (a + 1)" by (rule n1(2))
      show "(0::rat) < 2 ^ b" by simp
      show "(2::rat) ^ b \<le> of_int d" by (rule d1(1))
    qed
    then show ?thesis by (simp add: k2 q)
  qed
  show ?thesis
  proof (cases "pow2 k \<le> q")
    case True
    with hi show ?thesis by (simp add: fl)
  next
    case False
    with lo show ?thesis by (simp add: fl)
  qed
qed

lemma round_half_even_of_int: "round_half_even (of_int m) = m"
  by (simp add: round_half_even_def)


lemma to_binary64_exact:
  assumes q: "\<bar>q\<bar> = of_int n / 2 ^ k" and n: "0 < n" "n < 2 ^ 53" and k: "k \<le> 1074"
  shows "to_binary64 q = FFinite q"
proof -
  define a where "a = \<bar>q\<bar>"
  have a: "a = of_int n / 2 ^ k" by (simp add: a_def q)
  have apos: "0 < a" using n by (simp add: a)
  then have q0: "q \<noteq> 0" by (auto simp: a_def)
  have "(of_int n :: rat) < of_int (2 ^ 53)" using n(2) by (simp only: of_int_less_iff)
  then have n53: "(of_int n :: rat) < 2 ^ 53" by simp
  have a_less: "a < pow2 (53 - int k)"
  proof -
    have "a < 2 ^ 53 / 2 ^ k" unfolding a using n53 by (simp add: divide_strict_right_mono)
    also have "\<dots> = pow2 (53 - int k)" by (simp add: pow2_powi power_int_diff)
    finally show ?thesis .
  qed
  from floor_log2_bounds [OF apos] have "pow2 (floor_log2 a) \<le> a" by simp
  with a_less have "pow2 (floor_log2 a) < pow2 (53 - int k)" by simp
  then have fl: "floor_log2 a < 53 - int k" by (simp add: pow2_less_iff)
  define e where "e = max (floor_log2 a - 52) (- 1074)"
  have e_le: "e \<le> - int k" using fl k by (simp add: e_def)
  define j where "j = nat (- int k - e)"
  have e: "e = - int (k + j)" using e_le by (simp add: j_def)
  have pe: "pow2 e = 1 / 2 ^ (k + j)" unfolding e by (rule pow2_neg_nat)
  have quot: "a / pow2 e = of_int (n * 2 ^ j)" by (simp add: pe a power_add)
  have m: "round_half_even (a / pow2 e) = n * 2 ^ j"
    unfolding quot by (rule round_half_even_of_int)
  have v: "of_int n * 2 ^ j * pow2 e = a" by (simp add: pe a power_add)
  have "pow2 (53 - int k) \<le> pow2 1024" by (simp add: pow2_le_iff)
  with a_less have small: "\<not> pow2 1024 \<le> a" by simp
  have sgn: "(if q < 0 then - a else a) = q" by (simp add: a_def)
  have "to_binary64 q =
      (if pow2 1024 \<le> of_int (round_half_even (a / pow2 e)) * pow2 e then FInf (q < 0)
       else FFinite (if q < 0 then - (of_int (round_half_even (a / pow2 e)) * pow2 e)
                     else of_int (round_half_even (a / pow2 e)) * pow2 e))"
    by (simp only: to_binary64_def Let_def a_def e_def q0 if_False)
  also have "\<dots> = FFinite (if q < 0 then - a else a)"
    using small by (simp add: m v)
  finally show ?thesis by (simp only: sgn)
qed

lemma to_binary64_of_int:
  assumes "\<bar>m\<bar> < 2 ^ 53"
  shows "to_binary64 (of_int m) = FFinite (of_int m)"
proof (cases "m = 0")
  case True
  then show ?thesis by (simp add: to_binary64_def)
next
  case False
  have "\<bar>of_int m :: rat\<bar> = of_int \<bar>m\<bar> / 2 ^ 0" by simp
  moreover have "0 < \<bar>m\<bar>" using False by simp
  ultimately show ?thesis using assms by (rule to_binary64_exact) simp
qed

lemma round_half_even_ge_floor: "\<lfloor>q\<rfloor> \<le> round_half_even q"
  by (simp add: round_half_even_def Let_def)

lemma to_binary64_overflow:
  assumes big: "pow2 1024 \<le> q"
  shows "to_binary64 q = FInf False"
proof -
  have qpos: "0 < q" using pow2_pos [of 1024] big by linarith
  then have a: "\<bar>q\<bar> = q" and q0: "q \<noteq> 0" and nn: "\<not> q < 0" by simp_all
  define e where "e = max (floor_log2 q - 52) (- 1074)"
  define m where "m = round_half_even (q / pow2 e)"
  from floor_log2_bounds [OF qpos]
  have lo: "pow2 (floor_log2 q) \<le> q" and hi: "q < pow2 (floor_log2 q + 1)" by simp_all
  from big hi have "pow2 1024 < pow2 (floor_log2 q + 1)" by simp
  then have fl: "1024 \<le> floor_log2 q" by (simp add: pow2_less_iff)
  then have e: "e = floor_log2 q - 52" by (simp add: e_def)
  have split: "pow2 (floor_log2 q) = pow2 52 * pow2 e"
    using pow2_add [of 52 e] by (simp add: e)
  have epos: "0 < pow2 e" by (rule pow2_pos)
  have "pow2 52 \<le> q / pow2 e"
    using lo epos by (simp add: split pos_le_divide_eq)
  then have "(of_int (2 ^ 52) :: rat) \<le> q / pow2 e" by (simp add: pow2_def)
  then have f: "2 ^ 52 \<le> \<lfloor>q / pow2 e\<rfloor>" by (simp only: le_floor_iff)
  have "2 ^ 52 \<le> m"
    unfolding m_def by (rule order_trans [OF f round_half_even_ge_floor])
  then have "(of_int (2 ^ 52) :: rat) \<le> of_int m" by (simp only: of_int_le_iff)
  then have "pow2 52 \<le> of_int m" by (simp add: pow2_def)
  then have "pow2 52 * pow2 e \<le> of_int m * pow2 e"
    using epos by (simp add: mult_right_mono)
  with split have "pow2 (floor_log2 q) \<le> of_int m * pow2 e" by simp
  moreover have "pow2 1024 \<le> pow2 (floor_log2 q)" using fl by (simp add: pow2_le_iff)
  ultimately have v: "pow2 1024 \<le> of_int m * pow2 e" by linarith
  have "to_binary64 q =
      (if pow2 1024 \<le> of_int m * pow2 e then FInf (q < 0)
       else FFinite (if q < 0 then - (of_int m * pow2 e) else of_int m * pow2 e))"
    by (simp only: to_binary64_def Let_def a e_def m_def q0 if_False)
  then show ?thesis using v nn by simp
qed


lemma pow2_1024_le: "pow2 1024 \<le> 10 ^ 999"
proof -
  have e16: "(2::rat) ^ 4 = 16" and e100: "(10::rat) ^ 2 = 100" by simp_all
  have "pow2 1024 = 2 ^ (4 * 256)" by (simp add: pow2_def del: power_numeral)
  also have "\<dots> = ((2::rat) ^ 4) ^ 256" by (rule power_mult)
  also have "\<dots> = 16 ^ 256" by (simp only: e16)
  also have "\<dots> \<le> (100::rat) ^ 256" by (rule power_mono) simp_all
  also have "\<dots> = ((10::rat) ^ 2) ^ 256" by (simp only: e100)
  also have "\<dots> = 10 ^ (2 * 256)" by (rule power_mult [symmetric])
  also have "\<dots> \<le> (10::rat) ^ 999" by (rule power_increasing) simp_all
  finally show ?thesis .
qed

lemmas str_defs = strip_def isspace_def replace_all_def parse_sign_def lower_def lower_char_def
  isdigit_def parse_number_def digits_val_def or_else_def or_str_def

lemmas dec_defs = Decimal_def dec_in_range_def MAX_PREC_def MAX_EMAX_def MIN_ETINY_def
  ndigits.simps

lemma py_float_1e999: "py_float ''1e999'' = Inr (FInf False)"
proof -
  have p: "parse_number ''1e999'' = Some (1, 999)" by (simp add: str_defs)
  have "to_binary64 (10 ^ 999) = FInf False"
    using pow2_1024_le by (rule to_binary64_overflow)
  then show ?thesis
    by (simp add: py_float_def strip_def isspace_def replace_all_def parse_sign_def lower_def
        lower_char_def p pow10_def del: power_numeral)
qed

lemma py_float_45_5: "py_float ''45.5'' = Inr (FFinite (91 / 2))"
proof -
  have "to_binary64 (91 / 2) = FFinite (91 / 2)"
    by (rule to_binary64_exact [where n = 91 and k = 1]) simp_all
  then show ?thesis by (simp add: py_float_def str_defs pow10_def)
qed

lemma py_int_45_5: "py_int (FFinite (91 / 2)) = Inr 45"
  by (simp add: py_int_def floor_eq_iff)

lemma import_row_valid:
  "import_row 1 row_valid sample_db =
     Inr (Some (sample_db\<lparr>apartaments :=
       [\<lparr>a_id = 1, a_user_id = 1, a_name = ''Loft'', a_adress = ''1 Main St'', a_area = 45,
         a_cost = Dec False 123450 (- 2), a_tokens = 0, a_type = ''Flat''\<rparr>],
       apartaments_seq := 2\<rparr>))"
proof -
  have a: "py_float ''45.5'' = Inr (FFinite (91 / 2))" by (rule py_float_45_5)
  have c: "Decimal ''1234.50'' = Inr (Dec False 123450 (- 2))"
    by (simp add: dec_defs str_defs)
  show ?thesis
    by (simp add: import_row_def row_valid_def sample_db_def strip_def isspace_def
        replace_all_def or_else_def or_str_def a c py_int_45_5)
qed

lemma import_row_area_inf: "import_row 1 row_area_inf sample_db = Inl OverflowError"
proof -
  have a: "py_float ''inf'' = Inr (FInf False)" by (simp add: py_float_def str_defs)
  show ?thesis
    by (simp add: import_row_def row_area_inf_def strip_def isspace_def
        replace_all_def or_else_def or_str_def a py_int_def)
qed

lemma import_row_area_text: "import_row 1 row_area_text sample_db = Inr None"
proof -
  have a: "py_float ''large'' = Inl ValueError" by (simp add: py_float_def str_defs)
  show ?thesis
    by (simp add: import_row_def row_area_text_def strip_def isspace_def
        replace_all_def or_else_def or_str_def a)
qed

lemma import_row_area_huge: "import_row 1 row_area_huge sample_db = Inl OverflowError"
  by (simp add: import_row_def row_area_huge_def strip_def isspace_def
      replace_all_def or_else_def or_str_def py_float_1e999 py_int_def)

lemma as_posix_SERVER_CSV: "as_posix SERVER_CSV = ''/srv/homepass/homes.csv''"
  by (simp add: as_posix_def SERVER_CSV_def truediv_def PICTURES_DEST_ROOT_def Path_def)

section \<open>Image URL resolver: absent results\<close>

lemma split_ne: "split sep s \<noteq> []"
  by (induction s) (auto split: list.splits)


lemma split_Cons_other: "c \<noteq> sep \<Longrightarrow> split sep (c # s) = (c # hd (split sep s)) # tl (split sep s)"
  using split_ne [of sep s] by (cases "split sep s") simp_all

lemma split_nosep: "sep \<notin> set s \<Longrightarrow> split sep s = [s]"
  by (induction s) (auto split: list.splits)

lemma split_elems: "x \<in> set (split sep s) \<Longrightarrow> sep \<notin> set x"
proof (induction s arbitrary: x)
  case Nil
  then show ?case by simp
next
  case (Cons c s)
  show ?case
  proof (cases "c = sep")
    case True
    with Cons show ?thesis by auto
  next
    case False
    obtain w ws where ws: "split sep s = w # ws"
      using split_ne [of sep s] by (cases "split sep s") auto
    with False Cons.prems have "x = c # w \<or> x \<in> set ws" by simp
    then show ?thesis
    proof
      assume "x = c # w"
      moreover have "sep \<notin> set w" using Cons.IH [of w] ws by simp
      ultimately show ?thesis using False by auto
    next
      assume "x \<in> set ws"
      then show ?thesis using Cons.IH [of x] ws by simp
    qed
  qed
qed




lemma PICTURES_ROOT_eq:
  "PICTURES_ROOT = \<lparr>root = ''/'', parts = [''srv'', ''homepass'', ''pictures'']\<rparr>"
  by (simp add: PICTURES_ROOT_def truediv_def PICTURES_DEST_ROOT_def Path_def)

lemma Path_root: "root (Path v) = [] \<or> root (Path v) = ''/'' \<or> root (Path v) = ''//''"
  by (simp add: Path_def Let_def)

lemma Path_parts: "parts (Path v) = filter (\<lambda>p. p \<noteq> ''.'') (filter (\<lambda>p. p \<noteq> []) (split CHR ''/'' v))"
  by (simp add: Path_def Let_def conj_commute)

lemma lower_pictures_not_dot: "lower p = ''pictures'' \<Longrightarrow> p \<noteq> ''.''"
  by (auto simp: lower_def lower_char_def)

lemma segments_root_single:
  assumes "r = [] \<or> r = ''/'' \<or> r = ''//''" and "CHR ''/'' \<notin> set p"
  shows "filter (\<lambda>s. s \<noteq> []) (split CHR ''/'' (r @ p)) = filter (\<lambda>s. s \<noteq> []) [p]"
  using assms by (auto simp: split_nosep)

text \<open>
  C5. The resolver returns absent for an absent or empty path, and for every path whose
  only non-empty segment is \<open>pictures\<close> in any letter case.
\<close>

theorem resolve_absent:
  "resolve_image_url None = None
   \<and> resolve_image_url (Some []) = None
   \<and> (filter (\<lambda>s. s \<noteq> []) (split CHR ''/'' v) = [p] \<and> lower p = ''pictures''
        \<longrightarrow> resolve_image_url (Some v) = None)"
proof (intro conjI impI)
  show "resolve_image_url None = None" by (simp add: resolve_image_url_def)
  show "resolve_image_url (Some []) = None" by (simp add: resolve_image_url_def)
  assume h: "filter (\<lambda>s. s \<noteq> []) (split CHR ''/'' v) = [p] \<and> lower p = ''pictures''"
  then have seg: "filter (\<lambda>s. s \<noteq> []) (split CHR ''/'' v) = [p]" and lp: "lower p = ''pictures''"
    by simp_all
  have "p \<in> set (filter (\<lambda>s. s \<noteq> []) (split CHR ''/'' v))" by (simp add: seg)
  then have pin: "p \<in> set (split CHR ''/'' v)" and pne: "p \<noteq> []" by simp_all
  from pin have noslash: "CHR ''/'' \<notin> set p" by (rule split_elems)
  from lp have pdot: "p \<noteq> ''.''" by (rule lower_pictures_not_dot)
  have pp: "parts (Path v) = [p]" by (simp add: Path_parts seg pdot)
  have rel: "relative_to (Path v) PICTURES_ROOT = None"
    by (simp add: relative_to_def PICTURES_ROOT_eq pp)
  have posix: "as_posix (Path v) = root (Path v) @ p" by (simp add: as_posix_def pp)
  have segs: "filter (\<lambda>s. s \<noteq> []) (split CHR ''/'' (as_posix (Path v))) = [p]"
    unfolding posix using segments_root_single [OF Path_root noslash, of v] pne by simp
  have vne: "v \<noteq> []" using seg by auto
  show "resolve_image_url (Some v) = None"
    using vne by (simp add: resolve_image_url_def Let_def rel segs lp)
qed

theorem resolve_absent_witness:
  "filter (\<lambda>s. s \<noteq> []) (split CHR ''/'' ''//PicTures/'') = [''PicTures'']
   \<and> lower ''PicTures'' = ''pictures''
   \<and> resolve_image_url (Some ''//PicTures/'') = None"
proof -
  have a: "filter (\<lambda>s. s \<noteq> []) (split CHR ''/'' ''//PicTures/'') = [''PicTures'']" by simp
  have b: "lower ''PicTures'' = ''pictures''"
    by (simp add: lower_def lower_char_def char_of_eq_iff)
  from a b resolve_absent [of "''//PicTures/''" "''PicTures''"] show ?thesis by blast
qed

section \<open>Image URL resolver: resolving a resolved URL\<close>










section \<open>Row enricher: the images of a listing\<close>

lemma resolve_nonempty: "resolve_image_url value = Some u \<Longrightarrow> u \<noteq> []"
  by (auto simp: resolve_image_url_def Let_def PICTURES_URL_BASE_def split: option.splits if_splits)

lemma key_le_pictures_order:
  "(\<not> p_is_primary p, p_id p) \<le> (\<not> p_is_primary q, p_id q) \<Longrightarrow> pictures_order p q"
  by (auto simp: pictures_order_def less_eq_prod_def)

lemma sorted_key_pictures_order:
  "sorted (map (\<lambda>p. (\<not> p_is_primary p, p_id p)) ps) \<Longrightarrow> sorted_wrt pictures_order ps"
  unfolding sorted_map by (erule sorted_wrt_mono_rel [rotated]) (rule key_le_pictures_order)

lemma images_comprehension:
  "[p. Some p \<leftarrow> map resolve_image_url xs, p \<noteq> []] = [u. Some u \<leftarrow> map resolve_image_url xs]"
proof (induction xs)
  case Nil
  then show ?case by simp
next
  case (Cons x xs)
  then show ?case
    by (cases "resolve_image_url x") (auto dest: resolve_nonempty)
qed

text \<open>
  C7. The row enricher gives every listing the \<open>images\<close> obtained from that
  listing's pictures, ordered primary-first then by identifier ascending, by mapping each
  file path through the resolver and leaving out the paths that resolve to absent: the
  paths read for listing \<open>i\<close> are those of a list of pictures that holds exactly the
  pictures of \<open>i\<close> (as a multiset) and is sorted in that order.
\<close>

theorem attach_images_spec:
  "attach_images db rows =
     map (\<lambda>row. row\<lparr>images := [u. Some u \<leftarrow> map resolve_image_url (get_image_paths db (row_id row))]\<rparr>) rows
   \<and> (\<exists>pics. get_image_paths db i = map p_file_path pics
         \<and> mset pics = filter_mset (\<lambda>p. p_apartment_id p = i) (mset (pictures db))
         \<and> sorted_wrt pictures_order pics)"
proof
  show "attach_images db rows =
     map (\<lambda>row. row\<lparr>images := [u. Some u \<leftarrow> map resolve_image_url (get_image_paths db (row_id row))]\<rparr>) rows"
    by (simp only: attach_images_def Let_def images_comprehension)
  let ?pics = "sort_key (\<lambda>p. (\<not> p_is_primary p, p_id p))
      (filter (\<lambda>p. p_apartment_id p = i) (pictures db))"
  have "get_image_paths db i = map p_file_path ?pics" by (simp add: get_image_paths_def)
  moreover have "mset ?pics = filter_mset (\<lambda>p. p_apartment_id p = i) (mset (pictures db))"
    by simp
  moreover have "sorted_wrt pictures_order ?pics"
    by (rule sorted_key_pictures_order) (rule sorted_sort_key)
  ultimately show "\<exists>pics. get_image_paths db i = map p_file_path pics
         \<and> mset pics = filter_mset (\<lambda>p. p_apartment_id p = i) (mset (pictures db))
         \<and> sorted_wrt pictures_order pics" by blast
qed


theorem attach_images_spec_witness:
  "attach_images (sample_db\<lparr>pictures := sample_pictures\<rparr>) [\<lparr>row_id = 7, images = []\<rparr>]
     = [\<lparr>row_id = 7, images = [''http://jumbo.galagen.net:2205/pictures/7/a.jpg'',
                                  ''http://jumbo.galagen.net:2205/pictures/7/b.jpg'']\<rparr>]
   \<and> get_image_paths (sample_db\<lparr>pictures := sample_pictures\<rparr>) 7
     = [Some ''/srv/homepass/pictures/7/a.jpg'', Some ''pictures/7/b.jpg'', Some ''pictures'', None]"
proof -
  have g: "get_image_paths (sample_db\<lparr>pictures := sample_pictures\<rparr>) 7
     = [Some ''/srv/homepass/pictures/7/a.jpg'', Some ''pictures/7/b.jpg'', Some ''pictures'', None]"
    by (simp add: get_image_paths_def sample_pictures_def less_eq_prod_def less_prod_def)
  have r: "resolve_image_url (Some ''/srv/homepass/pictures/7/a.jpg'')
        = Some ''http://jumbo.galagen.net:2205/pictures/7/a.jpg''"
      "resolve_image_url (Some ''pictures/7/b.jpg'')
        = Some ''http://jumbo.galagen.net:2205/pictures/7/b.jpg''"
      "resolve_image_url (Some ''pictures'') = None"
      "resolve_image_url None = None"
    by (simp_all add: resolve_image_url_def Let_def Path_def is_absolute_def as_posix_def
        relative_to_def PICTURES_ROOT_eq PICTURES_URL_BASE_def lower_def lower_char_def)
  from attach_images_spec [of "sample_db\<lparr>pictures := sample_pictures\<rparr>"
      "[\<lparr>row_id = 7, images = []\<rparr>]" 7]
  show ?thesis by (simp add: g r)
qed

section \<open>CSV import: the loop body and the field mapping\<close>

lemma or_str_first2: "or_str (or_else a b) [] = first_present [a, b]"
  by (cases a; cases b) (auto simp: or_str_def or_else_def)

lemma or_str_first3: "or_str (or_else (or_else a b) c) [] = first_present [a, b, c]"
  by (cases a; cases b; cases c) (auto simp: or_str_def or_else_def)

lemma or_str_type: "or_str a ''Flat'' = (if first_present [a] = [] then ''Flat'' else first_present [a])"
  by (cases a) (auto simp: or_str_def)

lemma py_float_error: "py_float s = Inl e \<Longrightarrow> e = ValueError"
  by (auto simp: py_float_def Let_def split: if_splits prod.splits option.splits)

lemma py_int_error: "py_int x = Inl e \<Longrightarrow> e = ValueError \<or> e = OverflowError"
  by (auto simp: py_int_def split: pyfloat.splits)

lemma spec_area_error: "spec_area row = Inl e \<Longrightarrow> e = ValueError \<or> e = OverflowError"
  by (auto simp: spec_area_def split: sum.splits dest: py_float_error py_int_error)

lemma Decimal_error: "Decimal s = Inl e \<Longrightarrow> e = InvalidOperation"
  by (auto simp: Decimal_def Let_def split: if_splits prod.splits option.splits)

lemma find_dedup:
  "find (\<lambda>a. a_name a = n \<and> a_adress a = ad \<and> a_user_id a = u) xs = None
     \<longleftrightarrow> (n, ad, u) \<notin> dedup_key ` set xs"
  by (auto simp: find_None_iff dedup_key_def)

lemma import_row_spec:
  "import_row user_id row db =
     (if spec_name row = [] \<or> spec_address row = [] then Inr None
      else (case spec_area row of
              Inl e \<Rightarrow> if e = OverflowError then Inl OverflowError else Inr None
            | Inr area \<Rightarrow>
               (case spec_cost row of
                  Inl e \<Rightarrow> Inr None
                | Inr cost \<Rightarrow>
                    if (spec_name row, spec_address row, user_id) \<in> dedup_key ` set (apartaments db)
                    then Inr None
                    else Inr (Some (db\<lparr>apartaments := apartaments db @ [new_listing db user_id row area cost],
                                       apartaments_seq := apartaments_seq db + 1\<rparr>)))))"
proof -
  have name: "strip (or_str (or_else (or_else (row ''title'') (row ''name'')) (row ''url'')) [])
      = spec_name row" by (simp add: spec_name_def or_str_first3)
  have addr: "strip (or_str (or_else (row ''address'') (row ''adress'')) []) = spec_address row"
    by (simp add: spec_address_def or_str_first2)
  have area: "(case py_float (strip (replace_all CHR '','' (or_str (or_else (row ''area_m2'') (row ''area'')) [])))
      of Inl e \<Rightarrow> Inl e | Inr x \<Rightarrow> py_int x) = spec_area row"
    by (simp add: spec_area_def or_str_first2)
  have cost: "Decimal (strip (replace_all CHR '','' (or_str (or_else (row ''price_usd'') (row ''cost'')) [])))
      = spec_cost row" by (simp add: spec_cost_def or_str_first2)
  have type: "strip (or_str (row ''type'') ''Flat'') = spec_type row"
    by (simp only: spec_type_def or_str_type)
  have eq: "import_row user_id row db =
     (if spec_name row = [] \<or> spec_address row = [] then Inr None
      else (case spec_area row of
              Inl e \<Rightarrow> if e = ValueError \<or> e = TypeError then Inr None else Inl e
            | Inr area \<Rightarrow>
               (case spec_cost row of
                  Inl e \<Rightarrow> if e = InvalidOperation \<or> e = TypeError then Inr None else Inl e
                | Inr cost \<Rightarrow>
                   (case find (\<lambda>a. a_name a = spec_name row \<and> a_adress a = spec_address row
                                 \<and> a_user_id a = user_id) (apartaments db) of
                      Some _ \<Rightarrow> Inr None
                    | None \<Rightarrow> Inr (Some (db\<lparr>apartaments := apartaments db @ [new_listing db user_id row area cost],
                                       apartaments_seq := apartaments_seq db + 1\<rparr>))))))"
    unfolding import_row_def Let_def name addr area cost type new_listing_def by (rule refl)
  have key: "(spec_name row, spec_address row, user_id) \<in> dedup_key ` set (apartaments db)
      \<longleftrightarrow> find (\<lambda>a. a_name a = spec_name row \<and> a_adress a = spec_address row
                 \<and> a_user_id a = user_id) (apartaments db) \<noteq> None"
    by (simp add: find_dedup)
  show ?thesis
  proof (cases "spec_area row")
    case (Inl e)
    with spec_area_error [of row e] show ?thesis by (auto simp: eq)
  next
    case area: (Inr a)
    show ?thesis
    proof (cases "spec_cost row")
      case (Inl e)
      then have "e = InvalidOperation" unfolding spec_cost_def by (rule Decimal_error)
      with Inl area show ?thesis by (simp add: eq)
    next
      case (Inr c)
      with area show ?thesis
        unfolding eq key
        by (cases "find (\<lambda>a. a_name a = spec_name row \<and> a_adress a = spec_address row
                 \<and> a_user_id a = user_id) (apartaments db)") simp_all
    qed
  qed
qed

lemma import_row_SomeD:
  assumes "import_row user_id row db = Inr (Some db')"
  shows "\<exists>area cost. spec_name row \<noteq> [] \<and> spec_address row \<noteq> []
           \<and> spec_area row = Inr area \<and> spec_cost row = Inr cost
           \<and> (spec_name row, spec_address row, user_id) \<notin> dedup_key ` set (apartaments db)
           \<and> db' = db\<lparr>apartaments := apartaments db @ [new_listing db user_id row area cost],
                       apartaments_seq := apartaments_seq db + 1\<rparr>"
  using assms unfolding import_row_spec
  by (auto split: if_splits sum.splits)

lemma dedup_key_new_listing:
  "dedup_key (new_listing db user_id row area cost) = (spec_name row, spec_address row, user_id)"
  by (simp add: dedup_key_def new_listing_def)


lemma import_row_present:
  assumes "import_row user_id row db = Inr (Some db1)"
    and "dedup_key ` set (apartaments db1) \<subseteq> dedup_key ` set (apartaments db2)"
  shows "import_row user_id row db2 = Inr None"
proof -
  from import_row_SomeD [OF assms(1)] obtain area cost where
    v: "spec_name row \<noteq> []" "spec_address row \<noteq> []" "spec_area row = Inr area"
       "spec_cost row = Inr cost"
    and db1: "db1 = db\<lparr>apartaments := apartaments db @ [new_listing db user_id row area cost],
                       apartaments_seq := apartaments_seq db + 1\<rparr>"
    by blast
  have "(spec_name row, spec_address row, user_id) \<in> dedup_key ` set (apartaments db1)"
    by (simp add: db1 dedup_key_new_listing)
  with assms(2) have "(spec_name row, spec_address row, user_id) \<in> dedup_key ` set (apartaments db2)"
    by blast
  with v show ?thesis by (simp add: import_row_spec)
qed

lemma import_rows_new:
  assumes "import_rows user_id rows db m = Inr (n, db')"
  shows "\<exists>new. db' = db\<lparr>apartaments := apartaments db @ new,
                         apartaments_seq := apartaments_seq db + int (length new)\<rparr>
           \<and> n = m + length new
           \<and> distinct (map dedup_key new)
           \<and> (\<forall>a\<in>set new. dedup_key a \<notin> dedup_key ` set (apartaments db)
                 \<and> (\<exists>row\<in>set rows. \<exists>dbx area cost. spec_name row \<noteq> [] \<and> spec_address row \<noteq> []
                       \<and> spec_area row = Inr area \<and> spec_cost row = Inr cost
                       \<and> a = new_listing dbx user_id row area cost))"
  using assms
proof (induction rows arbitrary: db m)
  case Nil
  then show ?case by (intro exI [of _ "[]"]) simp
next
  case (Cons row rest)
  show ?case
  proof (cases "import_row user_id row db")
    case (Inl e)
    with Cons.prems show ?thesis by simp
  next
    case (Inr r)
    show ?thesis
    proof (cases r)
      case None
      with Inr Cons.prems have "import_rows user_id rest db m = Inr (n, db')" by simp
      from Cons.IH [OF this] obtain new where
        1: "db' = db\<lparr>apartaments := apartaments db @ new,
                         apartaments_seq := apartaments_seq db + int (length new)\<rparr>"
        and 2: "n = m + length new"
        and 3: "distinct (map dedup_key new)"
        and each: "\<forall>x\<in>set new. dedup_key x \<notin> dedup_key ` set (apartaments db)
                 \<and> (\<exists>row\<in>set rest. \<exists>dbx area cost. spec_name row \<noteq> [] \<and> spec_address row \<noteq> []
                       \<and> spec_area row = Inr area \<and> spec_cost row = Inr cost
                       \<and> x = new_listing dbx user_id row area cost)"
        by blast
      from each have 4: "\<forall>x\<in>set new. dedup_key x \<notin> dedup_key ` set (apartaments db)
                 \<and> (\<exists>r\<in>set (row # rest). \<exists>dbx area cost. spec_name r \<noteq> [] \<and> spec_address r \<noteq> []
                       \<and> spec_area r = Inr area \<and> spec_cost r = Inr cost
                       \<and> x = new_listing dbx user_id r area cost)"
        by (metis list.set_intros(2))
      from 1 2 3 4 show ?thesis by blast
    next
      case (Some db1)
      with Inr have step: "import_row user_id row db = Inr (Some db1)" by simp
      from import_row_SomeD [OF step] obtain area cost where
        v: "spec_name row \<noteq> []" "spec_address row \<noteq> []" "spec_area row = Inr area"
           "spec_cost row = Inr cost"
        and fresh: "(spec_name row, spec_address row, user_id) \<notin> dedup_key ` set (apartaments db)"
        and db1: "db1 = db\<lparr>apartaments := apartaments db @ [new_listing db user_id row area cost],
                       apartaments_seq := apartaments_seq db + 1\<rparr>"
        by blast
      define a where "a = new_listing db user_id row area cost"
      have ka: "dedup_key a = (spec_name row, spec_address row, user_id)"
        by (simp add: a_def dedup_key_new_listing)
      from step Cons.prems have "import_rows user_id rest db1 (m + 1) = Inr (n, db')" by simp
      from Cons.IH [OF this] obtain new1 where
        d: "db' = db1\<lparr>apartaments := apartaments db1 @ new1,
                         apartaments_seq := apartaments_seq db1 + int (length new1)\<rparr>"
        and n: "n = m + 1 + length new1"
        and dist: "distinct (map dedup_key new1)"
        and each: "\<forall>x\<in>set new1. dedup_key x \<notin> dedup_key ` set (apartaments db1)
                 \<and> (\<exists>row\<in>set rest. \<exists>dbx area cost. spec_name row \<noteq> [] \<and> spec_address row \<noteq> []
                       \<and> spec_area row = Inr area \<and> spec_cost row = Inr cost
                       \<and> x = new_listing dbx user_id row area cost)"
        by blast
      have ap1: "apartaments db1 = apartaments db @ [a]" by (simp add: db1 a_def)
      have 1: "db' = db\<lparr>apartaments := apartaments db @ (a # new1),
                         apartaments_seq := apartaments_seq db + int (length (a # new1))\<rparr>"
        by (simp add: d db1 a_def)
      have 2: "n = m + length (a # new1)" by (simp add: n)
      have 3: "distinct (map dedup_key (a # new1))"
        using dist each by (auto simp: ap1)
      have 4: "\<forall>x\<in>set (a # new1). dedup_key x \<notin> dedup_key ` set (apartaments db)
                 \<and> (\<exists>r\<in>set (row # rest). \<exists>dbx area cost. spec_name r \<noteq> [] \<and> spec_address r \<noteq> []
                       \<and> spec_area r = Inr area \<and> spec_cost r = Inr cost
                       \<and> x = new_listing dbx user_id r area cost)"
      proof
        fix x assume "x \<in> set (a # new1)"
        then consider "x = a" | "x \<in> set new1" by auto
        then show "dedup_key x \<notin> dedup_key ` set (apartaments db)
                 \<and> (\<exists>r\<in>set (row # rest). \<exists>dbx area cost. spec_name r \<noteq> [] \<and> spec_address r \<noteq> []
                       \<and> spec_area r = Inr area \<and> spec_cost r = Inr cost
                       \<and> x = new_listing dbx user_id r area cost)"
        proof cases
          case 1
          with fresh ka v a_def show ?thesis by auto
        next
          case 2
          with each have "dedup_key x \<notin> dedup_key ` set (apartaments db1)"
            and "\<exists>row\<in>set rest. \<exists>dbx area cost. spec_name row \<noteq> [] \<and> spec_address row \<noteq> []
                       \<and> spec_area row = Inr area \<and> spec_cost row = Inr cost
                       \<and> x = new_listing dbx user_id row area cost" by blast+
          then show ?thesis by (auto simp: ap1)
        qed
      qed
      from 1 2 3 4 show ?thesis by blast
    qed
  qed
qed

section \<open>CSV import: running the import again\<close>








lemma import_row_valid_again: "import_row 1 row_valid db_loft = Inr None"
  using import_row_valid [folded db_loft_def] by (rule import_row_present) simp

lemma import_rows_sample:
  "import_rows 1 [row_area_text, row_valid, row_valid] sample_db 0 = Inr (1, db_loft)"
  by (simp add: import_row_area_text import_row_valid [folded db_loft_def] import_row_valid_again)



section \<open>CSV import: the listings a run inserts\<close>

lemma insert_new:
  assumes "insert_apartments_from_csv fs db path user_id = Inr (n, db')"
  shows "\<exists>rows new. fs (as_posix path) = Some rows
           \<and> apartaments db' = apartaments db @ new \<and> length new = n
           \<and> distinct (map dedup_key new)
           \<and> (\<forall>a\<in>set new. dedup_key a \<notin> dedup_key ` set (apartaments db)
                 \<and> (\<exists>row\<in>set rows. \<exists>dbx area cost. spec_name row \<noteq> [] \<and> spec_address row \<noteq> []
                       \<and> spec_area row = Inr area \<and> spec_cost row = Inr cost
                       \<and> a = new_listing dbx user_id row area cost))"
proof -
  from assms obtain rows where f: "fs (as_posix path) = Some rows"
    and r: "import_rows user_id rows db 0 = Inr (n, db')"
    by (auto simp: insert_apartments_from_csv_def split: option.splits)
  from import_rows_new [OF r] obtain new where
    d: "db' = db\<lparr>apartaments := apartaments db @ new,
               apartaments_seq := apartaments_seq db + int (length new)\<rparr>"
    and n: "n = 0 + length new" and dist: "distinct (map dedup_key new)"
    and each: "\<forall>a\<in>set new. dedup_key a \<notin> dedup_key ` set (apartaments db)
                 \<and> (\<exists>row\<in>set rows. \<exists>dbx area cost. spec_name row \<noteq> [] \<and> spec_address row \<noteq> []
                       \<and> spec_area row = Inr area \<and> spec_cost row = Inr cost
                       \<and> a = new_listing dbx user_id row area cost)"
    by blast
  from d have "apartaments db' = apartaments db @ new" by simp
  with f n dist each show ?thesis by auto
qed

text \<open>
  C10. Within one run of the import, whatever the store held before, the listings
  inserted have pairwise different (name, address, owner) keys, none of which was in the
  store: rows of the file that share a key after trimming are inserted at most once,
  since the lookup of a later row reads the insert of an earlier one.
\<close>

theorem in_file_duplicates_once:
  assumes "insert_apartments_from_csv fs db path user_id = Inr (n, db')"
  shows "\<exists>rows new. fs (as_posix path) = Some rows
           \<and> apartaments db' = apartaments db @ new \<and> length new = n
           \<and> distinct (map dedup_key new)
           \<and> (\<forall>a\<in>set new. dedup_key a \<notin> dedup_key ` set (apartaments db)
                 \<and> (\<exists>row\<in>set rows. dedup_key a = (spec_name row, spec_address row, user_id)))"
proof -
  from insert_new [OF assms] obtain rows new where
    f: "fs (as_posix path) = Some rows" and a: "apartaments db' = apartaments db @ new"
    and n: "length new = n" and dist: "distinct (map dedup_key new)"
    and each: "\<forall>a\<in>set new. dedup_key a \<notin> dedup_key ` set (apartaments db)
                 \<and> (\<exists>row\<in>set rows. \<exists>dbx area cost. spec_name row \<noteq> [] \<and> spec_address row \<noteq> []
                       \<and> spec_area row = Inr area \<and> spec_cost row = Inr cost
                       \<and> a = new_listing dbx user_id row area cost)"
    by blast
  from each have "\<forall>a\<in>set new. dedup_key a \<notin> dedup_key ` set (apartaments db)
                 \<and> (\<exists>row\<in>set rows. dedup_key a = (spec_name row, spec_address row, user_id))"
    by (fastforce simp: dedup_key_new_listing)
  with f a n dist show ?thesis by blast
qed

lemma insert_sample:
  "insert_apartments_from_csv (sample_fs [row_area_text, row_valid, row_valid]) sample_db
      SERVER_CSV 1 = Inr (1, db_loft)"
  by (simp add: insert_apartments_from_csv_def as_posix_SERVER_CSV sample_fs_def
      import_rows_sample del: import_rows.simps)

theorem in_file_duplicates_once_witness:
  "insert_apartments_from_csv (sample_fs [row_area_text, row_valid, row_valid]) sample_db
      SERVER_CSV 1 = Inr (1, db_loft)
   \<and> (\<exists>rows new. sample_fs [row_area_text, row_valid, row_valid] (as_posix SERVER_CSV) = Some rows
           \<and> apartaments db_loft = apartaments sample_db @ new \<and> length new = 1
           \<and> distinct (map dedup_key new)
           \<and> (\<forall>a\<in>set new. dedup_key a \<notin> dedup_key ` set (apartaments sample_db)
                 \<and> (\<exists>row\<in>set rows. dedup_key a = (spec_name row, spec_address row, 1))))"
  using in_file_duplicates_once [OF insert_sample] insert_sample by simp

lemma spec_type_default: "row ''type'' = None \<or> row ''type'' = Some [] \<Longrightarrow> spec_type row = ''Flat''"
  by (auto simp: spec_type_def strip_def isspace_def)

lemma py_float_minus_5: "py_float ''-5'' = Inr (FFinite (- 5))"
proof -
  have "to_binary64 (- 5) = FFinite (- 5)"
    using to_binary64_of_int [of "- 5"] by simp
  then show ?thesis by (simp add: py_float_def str_defs pow10_def)
qed

lemma import_row_area_negative: "import_row 1 row_area_negative sample_db = Inr (Some db_cellar)"
proof -
  have c: "Decimal ''10'' = Inr (Dec False 10 0)" by (simp add: dec_defs str_defs)
  have i: "py_int (FFinite (- 5)) = Inr (- 5)" by (simp add: py_int_def)
  show ?thesis
    by (simp add: import_row_def row_area_negative_def sample_db_def db_cellar_def strip_def
        isspace_def replace_all_def or_else_def or_str_def py_float_minus_5 c i)
qed

text \<open>
  C9, as stated, fails on the area: the import has no check of its sign, and a row whose
  area is \<open>-5\<close> is inserted with the area \<open>-5\<close>.
\<close>

theorem negative_area_inserted:
  "insert_apartments_from_csv (sample_fs [row_area_negative]) sample_db SERVER_CSV 1
     = Inr (1, db_cellar)
   \<and> map a_area (apartaments db_cellar) = [- 5]"
  by (simp add: insert_apartments_from_csv_def as_posix_SERVER_CSV sample_fs_def
      import_row_area_negative) (simp add: db_cellar_def)

text \<open>
  C9, amended. Every listing the import inserts has a non-empty name and a non-empty
  address (those of its row, trimmed), the token count 0, the owner of the run, as area
  the integer its row's area truncates to (of either sign), as cost its row's decimal,
  and the type \<open>Flat\<close> when its row gives no type (the column absent or empty).
\<close>

theorem inserted_listing_model:
  assumes "insert_apartments_from_csv fs db path user_id = Inr (n, db')"
  shows "\<exists>rows new. fs (as_posix path) = Some rows
           \<and> apartaments db' = apartaments db @ new
           \<and> (\<forall>a\<in>set new. a_name a \<noteq> [] \<and> a_adress a \<noteq> [] \<and> a_tokens a = 0
                 \<and> a_user_id a = user_id
                 \<and> (\<exists>row\<in>set rows. a_name a = spec_name row \<and> a_adress a = spec_address row
                       \<and> spec_area row = Inr (a_area a) \<and> spec_cost row = Inr (a_cost a)
                       \<and> a_type a = spec_type row
                       \<and> (row ''type'' = None \<or> row ''type'' = Some [] \<longrightarrow> a_type a = ''Flat'')))"
proof -
  from insert_new [OF assms] obtain rows new where
    f: "fs (as_posix path) = Some rows" and a: "apartaments db' = apartaments db @ new"
    and each: "\<forall>a\<in>set new. dedup_key a \<notin> dedup_key ` set (apartaments db)
                 \<and> (\<exists>row\<in>set rows. \<exists>dbx area cost. spec_name row \<noteq> [] \<and> spec_address row \<noteq> []
                       \<and> spec_area row = Inr area \<and> spec_cost row = Inr cost
                       \<and> a = new_listing dbx user_id row area cost)"
    by blast
  have "\<forall>a\<in>set new. a_name a \<noteq> [] \<and> a_adress a \<noteq> [] \<and> a_tokens a = 0
                 \<and> a_user_id a = user_id
                 \<and> (\<exists>row\<in>set rows. a_name a = spec_name row \<and> a_adress a = spec_address row
                       \<and> spec_area row = Inr (a_area a) \<and> spec_cost row = Inr (a_cost a)
                       \<and> a_type a = spec_type row
                       \<and> (row ''type'' = None \<or> row ''type'' = Some [] \<longrightarrow> a_type a = ''Flat''))"
  proof
    fix x assume "x \<in> set new"
    with each obtain row dbx area cost where r: "row \<in> set rows"
      and v: "spec_name row \<noteq> []" "spec_address row \<noteq> []" "spec_area row = Inr area"
        "spec_cost row = Inr cost"
      and x: "x = new_listing dbx user_id row area cost" by blast
    have d: "row ''type'' = None \<or> row ''type'' = Some [] \<longrightarrow> a_type x = ''Flat''"
      using spec_type_default [of row] by (auto simp: x new_listing_def)
    have "a_name x = spec_name row \<and> a_adress x = spec_address row
        \<and> spec_area row = Inr (a_area x) \<and> spec_cost row = Inr (a_cost x)
        \<and> a_type x = spec_type row"
      using v by (simp add: x new_listing_def)
    with d r have "\<exists>row\<in>set rows. a_name x = spec_name row \<and> a_adress x = spec_address row
                       \<and> spec_area row = Inr (a_area x) \<and> spec_cost row = Inr (a_cost x)
                       \<and> a_type x = spec_type row
                       \<and> (row ''type'' = None \<or> row ''type'' = Some [] \<longrightarrow> a_type x = ''Flat'')"
      by blast
    moreover have "a_name x \<noteq> [] \<and> a_adress x \<noteq> [] \<and> a_tokens x = 0 \<and> a_user_id x = user_id"
      using v by (simp add: x new_listing_def)
    ultimately show "a_name x \<noteq> [] \<and> a_adress x \<noteq> [] \<and> a_tokens x = 0
                 \<and> a_user_id x = user_id
                 \<and> (\<exists>row\<in>set rows. a_name x = spec_name row \<and> a_adress x = spec_address row
                       \<and> spec_area row = Inr (a_area x) \<and> spec_cost row = Inr (a_cost x)
                       \<and> a_type x = spec_type row
                       \<and> (row ''type'' = None \<or> row ''type'' = Some [] \<longrightarrow> a_type x = ''Flat''))"
      by blast
  qed
  with f a show ?thesis by blast
qed

theorem inserted_listing_model_witness:
  "insert_apartments_from_csv (sample_fs [row_area_negative]) sample_db SERVER_CSV 1
     = Inr (1, db_cellar)
   \<and> (\<exists>rows new. sample_fs [row_area_negative] (as_posix SERVER_CSV) = Some rows
           \<and> apartaments db_cellar = apartaments sample_db @ new
           \<and> (\<forall>a\<in>set new. a_name a \<noteq> [] \<and> a_adress a \<noteq> [] \<and> a_tokens a = 0
                 \<and> a_user_id a = 1
                 \<and> (\<exists>row\<in>set rows. a_name a = spec_name row \<and> a_adress a = spec_address row
                       \<and> spec_area row = Inr (a_area a) \<and> spec_cost row = Inr (a_cost a)
                       \<and> a_type a = spec_type row
                       \<and> (row ''type'' = None \<or> row ''type'' = Some [] \<longrightarrow> a_type a = ''Flat''))))
   \<and> row_area_negative ''type'' = None"
proof -
  have i: "insert_apartments_from_csv (sample_fs [row_area_negative]) sample_db SERVER_CSV 1
     = Inr (1, db_cellar)"
    by (simp add: insert_apartments_from_csv_def as_posix_SERVER_CSV sample_fs_def
        import_row_area_negative)
  have t: "row_area_negative ''type'' = None" by (simp add: row_area_negative_def)
  from inserted_listing_model [OF i] i t show ?thesis by simp
qed

section \<open>CSV import: name, address and cost of a row\<close>

lemma import_row_inserted:
  assumes "import_row user_id row db = Inr (Some db')"
  shows "\<exists>a. apartaments db' = apartaments db @ [a] \<and> a_name a = spec_name row
           \<and> a_adress a = spec_address row \<and> spec_area row = Inr (a_area a)
           \<and> spec_cost row = Inr (a_cost a)"
proof -
  from import_row_SomeD [OF assms] obtain area cost where
    v: "spec_area row = Inr area" "spec_cost row = Inr cost"
    and d: "db' = db\<lparr>apartaments := apartaments db @ [new_listing db user_id row area cost],
                       apartaments_seq := apartaments_seq db + 1\<rparr>" by blast
  show ?thesis
    by (rule exI [of _ "new_listing db user_id row area cost"]) (simp add: d v new_listing_def)
qed

lemma import_row_valid_inserts:
  assumes "spec_name row \<noteq> []" and "spec_address row \<noteq> []"
    and "spec_area row = Inr area" and "spec_cost row = Inr cost"
    and "(spec_name row, spec_address row, user_id) \<notin> dedup_key ` set (apartaments db)"
  shows "import_row user_id row db =
           Inr (Some (db\<lparr>apartaments := apartaments db @ [new_listing db user_id row area cost],
                          apartaments_seq := apartaments_seq db + 1\<rparr>))"
  using assms by (simp add: import_row_spec)

lemma first_present_2:
  "first_present [a, b] =
     (case a of Some (x # xs) \<Rightarrow> x # xs
      | _ \<Rightarrow> (case b of Some (y # ys) \<Rightarrow> y # ys | _ \<Rightarrow> []))"
  by (auto split: option.splits list.splits)

lemma first_present_3:
  "first_present [a, b, c] =
     (case a of Some (x # xs) \<Rightarrow> x # xs
      | _ \<Rightarrow> (case b of Some (y # ys) \<Rightarrow> y # ys
              | _ \<Rightarrow> (case c of Some (z # zs) \<Rightarrow> z # zs | _ \<Rightarrow> [])))"
  by (auto split: option.splits list.splits)

lemma Decimal_1234_50: "Decimal ''1234.50'' = Inr (Dec False 123450 (- 2))"
  by (simp add: dec_defs str_defs)

lemma Decimal_10: "Decimal ''10'' = Inr (Dec False 10 0)"
  by (simp add: dec_defs str_defs)

lemma Decimal_exponent_bound:
  "Decimal ''1e999999999999999999'' = Inr (Dec False 1 999999999999999999)"
  "Decimal ''1e1000000000000000000'' = Inl InvalidOperation"
  by (simp_all add: dec_defs str_defs)

lemma spec_cost_missing:
  assumes "row ''price_usd'' = None \<or> row ''price_usd'' = Some []"
    and "row ''cost'' = None \<or> row ''cost'' = Some []"
  shows "spec_cost row = Inl InvalidOperation"
proof -
  from assms have "first_present [row ''price_usd'', row ''cost''] = []" by auto
  then show ?thesis by (simp add: spec_cost_def dec_defs str_defs)
qed

lemma spec_area_30:
  assumes "row ''area_m2'' = None" and "row ''area'' = Some ''30''"
  shows "spec_area row = Inr 30"
proof -
  have "to_binary64 30 = FFinite 30" using to_binary64_of_int [of 30] by simp
  then have "py_float ''30'' = Inr (FFinite 30)" by (simp add: py_float_def str_defs pow10_def)
  then show ?thesis
    using assms by (simp add: spec_area_def replace_all_def strip_def isspace_def py_int_def)
qed

text \<open>
  The cost of a row, as the code reads it: from \<open>price_usd\<close>, else \<open>cost\<close>, commas
  removed, trimmed, as a decimal that keeps every digit written. A valid row is inserted
  with that cost; a row whose cost is missing or does not parse is never inserted, and
  it is skipped when its area has not raised \<open>OverflowError\<close> before.
\<close>

lemma cost_of_row:
  shows "spec_cost row =
           Decimal (strip (replace_all CHR '',''
             (case row ''price_usd'' of Some (x # xs) \<Rightarrow> x # xs
              | _ \<Rightarrow> (case row ''cost'' of Some (y # ys) \<Rightarrow> y # ys | _ \<Rightarrow> []))))"
    and "spec_name row \<noteq> [] \<Longrightarrow> spec_address row \<noteq> [] \<Longrightarrow> spec_area row = Inr area
           \<Longrightarrow> spec_cost row = Inr cost
           \<Longrightarrow> (spec_name row, spec_address row, user_id) \<notin> dedup_key ` set (apartaments db)
           \<Longrightarrow> \<exists>db' a. import_row user_id row db = Inr (Some db')
                 \<and> apartaments db' = apartaments db @ [a] \<and> a_cost a = cost"
    and "row ''price_usd'' = Some ''1,234.50'' \<Longrightarrow> spec_cost row = Inr (Dec False 123450 (- 2))"
    and "dec_value (Dec False 123450 (- 2)) = Some (123450 / 100)"
    and "spec_cost row = Inl e \<Longrightarrow> import_row user_id row db \<noteq> Inr (Some db')"
    and "spec_cost row = Inl e \<Longrightarrow> spec_area row \<noteq> Inl OverflowError
           \<Longrightarrow> import_row user_id row db = Inr None"
proof -
  show "spec_cost row =
           Decimal (strip (replace_all CHR '',''
             (case row ''price_usd'' of Some (x # xs) \<Rightarrow> x # xs
              | _ \<Rightarrow> (case row ''cost'' of Some (y # ys) \<Rightarrow> y # ys | _ \<Rightarrow> []))))"
    by (simp only: spec_cost_def first_present_2)
  show "\<exists>db' a. import_row user_id row db = Inr (Some db')
                 \<and> apartaments db' = apartaments db @ [a] \<and> a_cost a = cost"
    if "spec_name row \<noteq> []" "spec_address row \<noteq> []" "spec_area row = Inr area"
      "spec_cost row = Inr cost"
      "(spec_name row, spec_address row, user_id) \<notin> dedup_key ` set (apartaments db)"
    using import_row_valid_inserts [OF that] by (simp add: new_listing_def)
  show "spec_cost row = Inr (Dec False 123450 (- 2))" if "row ''price_usd'' = Some ''1,234.50''"
    using that by (simp add: spec_cost_def replace_all_def strip_def isspace_def Decimal_1234_50)
  show "dec_value (Dec False 123450 (- 2)) = Some (123450 / 100)" by (simp add: pow10_def)
  show "import_row user_id row db \<noteq> Inr (Some db')" if "spec_cost row = Inl e"
    using that by (auto simp: import_row_spec split: sum.splits)
  show "import_row user_id row db = Inr None"
    if "spec_cost row = Inl e" "spec_area row \<noteq> Inl OverflowError"
    using that by (auto simp: import_row_spec split: sum.splits dest: spec_area_error)
qed

lemma cost_rows_skipped:
  "import_row 1 row_cost_text sample_db = Inr None"
  "import_row 1 row_no_cost sample_db = Inr None"
proof -
  have c: "spec_cost row_cost_text = Inl InvalidOperation"
    by (simp add: spec_cost_def row_cost_text_def dec_defs str_defs)
  have a: "spec_area row_cost_text = Inr 30"
    by (rule spec_area_30) (simp_all add: row_cost_text_def)
  from cost_of_row(6) [OF c] a show "import_row 1 row_cost_text sample_db = Inr None" by simp
  have c': "spec_cost row_no_cost = Inl InvalidOperation"
    by (rule spec_cost_missing) (simp_all add: row_no_cost_def)
  have a': "spec_area row_no_cost = Inr 30"
    by (rule spec_area_30) (simp_all add: row_no_cost_def)
  from cost_of_row(6) [OF c'] a' show "import_row 1 row_no_cost sample_db = Inr None" by simp
qed

text \<open>
  C2. A row whose cost is missing or does not parse is skipped. The code: a row with a
  name and an address, no cost in either column and the area \<open>inf\<close> is not skipped.
  The area is converted before the cost is read, \<open>int\<close> raises \<open>OverflowError\<close>,
  which \<open>except (ValueError, TypeError)\<close> does not catch, and the import ends there:
  the valid row after it is never reached.
\<close>

theorem cost_missing_overflow:
  "row_inf_no_cost ''price_usd'' = None \<and> row_inf_no_cost ''cost'' = None
   \<and> import_row 1 row_inf_no_cost sample_db = Inl OverflowError
   \<and> insert_apartments_from_csv (sample_fs [row_inf_no_cost, row_valid]) sample_db SERVER_CSV 1
     = Inl OverflowError"
proof -
  have a: "py_float ''inf'' = Inr (FInf False)" by (simp add: py_float_def str_defs)
  have r: "import_row 1 row_inf_no_cost sample_db = Inl OverflowError"
    by (simp add: import_row_def row_inf_no_cost_def strip_def isspace_def
        replace_all_def or_else_def or_str_def a py_int_def)
  then show ?thesis
    by (simp add: insert_apartments_from_csv_def as_posix_SERVER_CSV sample_fs_def)
      (simp add: row_inf_no_cost_def)
qed

text \<open>
  C3. The name of a row is the first of \<open>title\<close>, \<open>name\<close>, \<open>url\<close> that is
  present and not empty, trimmed; its address is the first of \<open>address\<close>,
  \<open>adress\<close>, trimmed. A row whose name or address is empty after trimming is skipped.
  A row with a name and an address whose area and cost convert, and whose key is not in
  the store, is inserted with that name and that address; and whatever listing a row
  inserts carries that name and that address, both non-empty.
\<close>

theorem name_address_fallback:
  "spec_name row =
     strip (case row ''title'' of Some (x # xs) \<Rightarrow> x # xs
            | _ \<Rightarrow> (case row ''name'' of Some (y # ys) \<Rightarrow> y # ys
                    | _ \<Rightarrow> (case row ''url'' of Some (z # zs) \<Rightarrow> z # zs | _ \<Rightarrow> [])))
   \<and> spec_address row =
     strip (case row ''address'' of Some (x # xs) \<Rightarrow> x # xs
            | _ \<Rightarrow> (case row ''adress'' of Some (y # ys) \<Rightarrow> y # ys | _ \<Rightarrow> []))
   \<and> (spec_name row = [] \<or> spec_address row = [] \<longrightarrow> import_row user_id row db = Inr None)
   \<and> (spec_name row \<noteq> [] \<and> spec_address row \<noteq> [] \<and> spec_area row = Inr area
        \<and> spec_cost row = Inr cost
        \<and> (spec_name row, spec_address row, user_id) \<notin> dedup_key ` set (apartaments db)
      \<longrightarrow> import_row user_id row db =
            Inr (Some (db\<lparr>apartaments := apartaments db @
                   [\<lparr>a_id = apartaments_seq db, a_user_id = user_id, a_name = spec_name row,
                     a_adress = spec_address row, a_area = area, a_cost = cost, a_tokens = 0,
                     a_type = spec_type row\<rparr>],
                 apartaments_seq := apartaments_seq db + 1\<rparr>)))
   \<and> (import_row user_id row db = Inr (Some db')
      \<longrightarrow> (\<exists>a. apartaments db' = apartaments db @ [a] \<and> a_name a = spec_name row
             \<and> a_adress a = spec_address row \<and> a_name a \<noteq> [] \<and> a_adress a \<noteq> []))"
proof (intro conjI impI)
  show "spec_name row =
     strip (case row ''title'' of Some (x # xs) \<Rightarrow> x # xs
            | _ \<Rightarrow> (case row ''name'' of Some (y # ys) \<Rightarrow> y # ys
                    | _ \<Rightarrow> (case row ''url'' of Some (z # zs) \<Rightarrow> z # zs | _ \<Rightarrow> [])))"
    by (simp only: spec_name_def first_present_3)
  show "spec_address row =
     strip (case row ''address'' of Some (x # xs) \<Rightarrow> x # xs
            | _ \<Rightarrow> (case row ''adress'' of Some (y # ys) \<Rightarrow> y # ys | _ \<Rightarrow> []))"
    by (simp only: spec_address_def first_present_2)
next
  assume "spec_name row = [] \<or> spec_address row = []"
  then show "import_row user_id row db = Inr None" by (auto simp: import_row_spec)
next
  assume "spec_name row \<noteq> [] \<and> spec_address row \<noteq> [] \<and> spec_area row = Inr area
        \<and> spec_cost row = Inr cost
        \<and> (spec_name row, spec_address row, user_id) \<notin> dedup_key ` set (apartaments db)"
  then show "import_row user_id row db =
            Inr (Some (db\<lparr>apartaments := apartaments db @
                   [\<lparr>a_id = apartaments_seq db, a_user_id = user_id, a_name = spec_name row,
                     a_adress = spec_address row, a_area = area, a_cost = cost, a_tokens = 0,
                     a_type = spec_type row\<rparr>],
                 apartaments_seq := apartaments_seq db + 1\<rparr>))"
    by (simp add: import_row_spec new_listing_def)
next
  assume i: "import_row user_id row db = Inr (Some db')"
  from import_row_SomeD [OF i] have "spec_name row \<noteq> []" "spec_address row \<noteq> []" by blast+
  with import_row_inserted [OF i]
  show "\<exists>a. apartaments db' = apartaments db @ [a] \<and> a_name a = spec_name row
             \<and> a_adress a = spec_address row \<and> a_name a \<noteq> [] \<and> a_adress a \<noteq> []" by auto
qed

theorem name_address_fallback_witness:
  "spec_name row_blank_title = []
   \<and> import_row 1 row_blank_title sample_db = Inr None
   \<and> spec_name row_fallback = ''Annex'' \<and> spec_address row_fallback = ''6 Main St''
   \<and> spec_name row_url_only = ''http://x/9''
   \<and> import_row 1 row_fallback sample_db = Inr (Some db_annex)
   \<and> (\<exists>a. apartaments db_annex = apartaments sample_db @ [a] \<and> a_name a = ''Annex''
          \<and> a_adress a = ''6 Main St'')"
proof -
  note t = name_address_fallback [where user_id = 1 and db = sample_db and db' = db_annex
      and area = 30 and cost = "Dec False 10 0"]
  have b: "spec_name row_blank_title = []"
    using t [where row = row_blank_title]
    by (simp add: row_blank_title_def strip_def isspace_def)
  with t [where row = row_blank_title]
  have 1: "import_row 1 row_blank_title sample_db = Inr None" by blast
  have n: "spec_name row_fallback = ''Annex''" and a: "spec_address row_fallback = ''6 Main St''"
    using t [where row = row_fallback]
    by (simp_all add: row_fallback_def strip_def isspace_def)
  have u: "spec_name row_url_only = ''http://x/9''"
    using t [where row = row_url_only]
    by (simp add: row_url_only_def strip_def isspace_def)
  have ar: "spec_area row_fallback = Inr 30"
    by (rule spec_area_30) (simp_all add: row_fallback_def)
  have co: "spec_cost row_fallback = Inr (Dec False 10 0)"
    by (simp add: spec_cost_def row_fallback_def replace_all_def strip_def isspace_def Decimal_10)
  have ty: "spec_type row_fallback = ''Flat''"
    by (simp add: spec_type_def row_fallback_def strip_def isspace_def)
  have k: "(spec_name row_fallback, spec_address row_fallback, 1) \<notin>
      dedup_key ` set (apartaments sample_db)" by (simp add: sample_db_def)
  from t [where row = row_fallback] n a ar co k
  have "import_row 1 row_fallback sample_db =
      Inr (Some (sample_db\<lparr>apartaments := apartaments sample_db @
                   [\<lparr>a_id = apartaments_seq sample_db, a_user_id = 1,
                     a_name = spec_name row_fallback, a_adress = spec_address row_fallback,
                     a_area = 30, a_cost = Dec False 10 0, a_tokens = 0,
                     a_type = spec_type row_fallback\<rparr>],
                 apartaments_seq := apartaments_seq sample_db + 1\<rparr>))"
    by simp
  then have 2: "import_row 1 row_fallback sample_db = Inr (Some db_annex)"
    by (simp add: n a ty db_annex_def) (simp add: sample_db_def)
  with t [where row = row_fallback] n a
  have 3: "\<exists>a. apartaments db_annex = apartaments sample_db @ [a] \<and> a_name a = ''Annex''
          \<and> a_adress a = ''6 Main St''" by auto
  from b 1 n a u 2 3 show ?thesis by blast
qed

section \<open>CSV import: what a row and a run can raise\<close>

lemma import_row_error: "import_row user_id row db = Inl e \<Longrightarrow> e = OverflowError"
  by (auto simp: import_row_spec split: if_splits sum.splits)

lemma import_rows_error: "import_rows user_id rows db m = Inl e \<Longrightarrow> e = OverflowError"
proof (induction rows arbitrary: db m)
  case Nil
  then show ?case by simp
next
  case (Cons row rest)
  then show ?case
    by (auto split: sum.splits option.splits dest: import_row_error)
qed

text \<open>
  The part of C4 that the code does: a row whose area text is no float, or reads as
  \<open>nan\<close>, is skipped and the rows after it are processed as if it were not there.
\<close>

lemma area_unparsable_skipped:
  assumes "spec_area row = Inl ValueError"
  shows "import_row user_id row db = Inr None"
    and "import_rows user_id (row # rest) db m = import_rows user_id rest db m"
proof -
  show "import_row user_id row db = Inr None" using assms by (simp add: import_row_spec)
  then show "import_rows user_id (row # rest) db m = import_rows user_id rest db m" by simp
qed

text \<open>
  The defect in general: a row with a name and an address whose area converts to an
  infinite float ends the run with \<open>OverflowError\<close>, whatever follows it.
\<close>

lemma area_overflow_raises:
  assumes "spec_name row \<noteq> []" and "spec_address row \<noteq> []"
    and "spec_area row = Inl OverflowError"
  shows "import_rows user_id (row # rest) db m = Inl OverflowError"
  using assms by (simp add: import_row_spec)

text \<open>
  The part of C8 that the code does: the import answers 404 exactly when the owner or
  the file is missing; otherwise it answers with a count or fails with
  \<open>OverflowError\<close>. A user that is not stored gives 404, a stored one is returned.
\<close>

lemma import_csv_not_found_iff:
  "(\<exists>detail. import_csv fs db user_id csv_path = Inl (HTTPException 404 detail))
     \<longleftrightarrow> \<not> ensure_user_exists db user_id
         \<or> \<not> exists_path fs (case csv_path of None \<Rightarrow> SERVER_CSV
                                | Some s \<Rightarrow> if s = [] then SERVER_CSV else Path s)"
proof -
  define path where "path = (case csv_path of None \<Rightarrow> SERVER_CSV
      | Some s \<Rightarrow> if s = [] then SERVER_CSV else Path s)"
  have "insert_apartments_from_csv fs db path user_id \<noteq> Inl (HTTPException 404 detail)"
    if "exists_path fs path" for detail
    using that
    by (auto simp: insert_apartments_from_csv_def exists_path_def dest: import_rows_error)
  then show ?thesis
    unfolding path_def [symmetric]
    by (auto simp: import_csv_def Let_def path_def [symmetric] split: sum.splits)
qed

lemma import_csv_outcomes:
  assumes "ensure_user_exists db user_id"
    and "exists_path fs (case csv_path of None \<Rightarrow> SERVER_CSV
                         | Some s \<Rightarrow> if s = [] then SERVER_CSV else Path s)"
  shows "(\<exists>res db'. import_csv fs db user_id csv_path = Inr (res, db'))
         \<or> import_csv fs db user_id csv_path = Inl OverflowError"
proof -
  define path where "path = (case csv_path of None \<Rightarrow> SERVER_CSV
      | Some s \<Rightarrow> if s = [] then SERVER_CSV else Path s)"
  from assms(2) have f: "exists_path fs path" by (simp add: path_def)
  then have "insert_apartments_from_csv fs db path user_id = Inl e \<Longrightarrow> e = OverflowError" for e
    by (auto simp: insert_apartments_from_csv_def exists_path_def dest: import_rows_error)
  with assms(1) f show ?thesis
    by (cases "insert_apartments_from_csv fs db path user_id")
      (auto simp: import_csv_def Let_def path_def [symmetric])
qed

lemma get_user_not_found:
  "user_id \<notin> u_id ` set (users db) \<Longrightarrow> get_user db user_id = Inl (HTTPException 404 ''User not found'')"
  by (auto simp: get_user_def find_Some_iff split: option.splits)

lemma get_user_found:
  "get_user db user_id = Inr u \<Longrightarrow> u \<in> set (users db) \<and> u_id u = user_id"
  by (auto simp: get_user_def find_Some_iff split: option.splits)

section \<open>The import and a row whose area is infinite\<close>

text \<open>
  C4. A row whose area does not parse is skipped, the batch goes on and the area is
  truncated. The code: a row whose area text reads as a float but is infinite
  (\<open>inf\<close>, or \<open>1e999\<close>, beyond the largest float) makes \<open>int\<close> raise
  \<open>OverflowError\<close>, which \<open>except (ValueError, TypeError)\<close> does not catch: the
  import stops there and the valid row after it is never reached, where a row whose
  area is the text \<open>large\<close> is skipped and the valid row is inserted.
\<close>

theorem area_overflow_aborts_batch:
  "insert_apartments_from_csv (sample_fs [row_area_inf, row_valid]) sample_db SERVER_CSV 1
     = Inl OverflowError
   \<and> insert_apartments_from_csv (sample_fs [row_area_huge, row_valid]) sample_db SERVER_CSV 1
     = Inl OverflowError
   \<and> (\<exists>db'. insert_apartments_from_csv (sample_fs [row_area_text, row_valid]) sample_db SERVER_CSV 1
     = Inr (1, db'))"
  by (simp add: insert_apartments_from_csv_def as_posix_SERVER_CSV sample_fs_def
      import_row_area_inf import_row_area_huge import_row_area_text import_row_valid)

text \<open>
  C8. The import answers with a count whenever the owner and the file exist. The code:
  with the owner in \<open>users\<close> and the file on disk, a row whose area is infinite makes
  the request fail with the uncaught \<open>OverflowError\<close>, neither a count nor NotFound.
\<close>

theorem import_csv_overflow_not_success:
  "ensure_user_exists sample_db 1
   \<and> exists_path (sample_fs [row_area_inf, row_valid]) SERVER_CSV
   \<and> import_csv (sample_fs [row_area_inf, row_valid]) sample_db 1 None = Inl OverflowError"
proof (intro conjI)
  show u: "ensure_user_exists sample_db 1"
    by (simp add: ensure_user_exists_def sample_db_def)
  show f: "exists_path (sample_fs [row_area_inf, row_valid]) SERVER_CSV"
    by (simp add: exists_path_def as_posix_SERVER_CSV sample_fs_def)
  have "insert_apartments_from_csv (sample_fs [row_area_inf, row_valid]) sample_db SERVER_CSV 1
     = Inl OverflowError"
    by (simp add: insert_apartments_from_csv_def as_posix_SERVER_CSV sample_fs_def
        import_row_area_inf)
  with u f show "import_csv (sample_fs [row_area_inf, row_valid]) sample_db 1 None
     = Inl OverflowError"
    by (simp add: import_csv_def)
qed

end
